theory Spec2Isabelle
  imports Main "HOL-Library.AList"
begin

section \<open>Shared data model (queue.types.ts)\<close>

text \<open>
  A JavaScript number is modelled as an \<open>int\<close> (seconds, milliseconds and counts are
  whole numbers in every call the claims are about), a \<open>Date\<close> as its \<open>getTime()\<close>
  value in milliseconds, an optional field as an \<open>option\<close>, and a
  \<open>Record<string, string>\<close> as an association list in the object's own enumeration
  order (an object has each key once, so the keys of such a list are distinct). The
  payload type \<open>T\<close> is the type variable \<open>'a\<close>.
\<close>

type_synonym attrs = "(string \<times> string) list"

record publish_options =
  delaySeconds :: "int option"
  ttlSeconds :: "int option"
  opt_correlationId :: "string option"
  opt_attributes :: "attrs option"

record 'a queue_message =
  msg_id :: string
  payload :: 'a
  publishedAt :: int
  expiresAt :: "int option"
  receipt :: string
  attributes :: "attrs option"
  correlationId :: "string option"

record subscribe_options =
  opt_maxMessages :: "int option"
  opt_pollIntervalMs :: "int option"
  opt_autoAck :: "bool option"

text \<open>Truthiness of an optional number and of an optional string, as \<open>x ? a : b\<close> tests it.\<close>

definition truthy_num :: "int option \<Rightarrow> bool" where
  "truthy_num x = (case x of None \<Rightarrow> False | Some n \<Rightarrow> n \<noteq> 0)"

definition truthy_str :: "string option \<Rightarrow> bool" where
  "truthy_str x = (case x of None \<Rightarrow> False | Some s \<Rightarrow> s \<noteq> [])"

text \<open>Optional chaining \<open>options?.field\<close>.\<close>

definition chain :: "'o option \<Rightarrow> ('o \<Rightarrow> 'b option) \<Rightarrow> 'b option" where
  "chain options field = (case options of None \<Rightarrow> None | Some o' \<Rightarrow> field o')"

section \<open>The in-memory driver (in-memory.driver.ts)\<close>

record 'a stored_message = "'a queue_message" +
  queue :: string

text \<open>
  A callback handed to \<open>setTimeout\<close>: the delayed \<open>push\<close> of \<open>publish\<close>, or the
  \<open>poll\<close> closure of the subscription with the given index.
\<close>

datatype 'a callback = PushCb string "'a stored_message" | PollCb nat

text \<open>
  Where the \<open>poll\<close> closure of a subscription is suspended: not running, at
  \<open>await this.pull\<close>, at \<open>await handler(message)\<close> (with the messages of the batch still
  to come), or at \<open>await this.ack\<close>.
\<close>

datatype 'a phase =
    Idle
  | AwaitPull "'a stored_message list"
  | AwaitHandler "'a stored_message" "'a stored_message list"
  | AwaitAck "'a stored_message list"

text \<open>The variables one call of \<open>subscribe\<close> closes over.\<close>

record 'a subscription =
  sub_queue :: string
  maxMessages :: int
  pollIntervalMs :: int
  autoAck :: bool
  isActive :: bool
  phase :: "'a phase"

text \<open>
  The driver's two maps, the timers of the runtime that are pending (identifier, due time
  in milliseconds, callback), the next fresh timer identifier, and the closures of the
  subscriptions made so far. Times are readings of \<open>Date.now()\<close>. The runtime counts a
  timer's delay from its own clock, the time it noted when the current turn of the event
  loop began; \<open>loop_lag\<close> says how many milliseconds that clock is behind \<open>Date.now()\<close> at
  the moment (none in a turn that has just begun).
\<close>

record 'a driver =
  queues :: "string \<rightharpoonup> 'a stored_message list"
  subscriptions :: "string \<rightharpoonup> nat list"
  timers :: "(nat \<times> int \<times> 'a callback) list"
  next_timeout :: nat
  loop_lag :: nat
  subs :: "'a subscription list"

definition new_driver :: "'a driver" where
  "new_driver = \<lparr>queues = Map.empty, subscriptions = Map.empty, timers = [],
     next_timeout = 0, loop_lag = 0, subs = []\<rparr>"

text \<open>\<open>this.queues.get(queue) ?? []\<close> and \<open>this.subscriptions.get(queue) ?? []\<close>.\<close>

definition stored_of :: "'a driver \<Rightarrow> string \<Rightarrow> 'a stored_message list" where
  "stored_of s q = (case queues s q of None \<Rightarrow> [] | Some xs \<Rightarrow> xs)"

definition timeouts_of :: "'a driver \<Rightarrow> string \<Rightarrow> nat list" where
  "timeouts_of s q = (case subscriptions s q of None \<Rightarrow> [] | Some ts \<Rightarrow> ts)"

definition push :: "'a driver \<Rightarrow> string \<Rightarrow> 'a stored_message \<Rightarrow> 'a driver" where
  "push s q message = s\<lparr>queues := (queues s)(q \<mapsto> stored_of s q @ [message])\<rparr>"

text \<open>
  The delay a timer of the runtime really gets: a delay below 1 ms or above
  2147483647 ms (one that does not fit a signed 32-bit integer) is set to 1 ms.
\<close>

definition timer_delay :: "int \<Rightarrow> int" where
  "timer_delay delay = (if delay < 1 \<or> 2147483647 < delay then 1 else delay)"

text \<open>
  \<open>setTimeout(cb, delay)\<close> called when \<open>Date.now()\<close> reads \<open>now\<close>: the runtime registers
  the callback under a fresh identifier, with the delay counted from its own clock. So
  the timer is due when \<open>Date.now()\<close> reads \<open>now - loop_lag + timer_delay delay\<close>, which
  is before \<open>now + delay\<close> when the runtime's clock is behind.
\<close>

definition setTimeout :: "'a driver \<Rightarrow> int \<Rightarrow> int \<Rightarrow> 'a callback \<Rightarrow> nat \<times> 'a driver" where
  "setTimeout s now delay cb =
     (next_timeout s,
      s\<lparr>timers := timers s @ [(next_timeout s, now - int (loop_lag s) + timer_delay delay, cb)],
        next_timeout := Suc (next_timeout s)\<rparr>)"

text \<open>\<open>clearTimeout\<close> of every identifier of a list.\<close>

definition clearTimeouts :: "'a driver \<Rightarrow> nat list \<Rightarrow> 'a driver" where
  "clearTimeouts s ids = s\<lparr>timers := filter (\<lambda>t. fst t \<notin> set ids) (timers s)\<rparr>"

text \<open>
  \<open>publish\<close>: \<open>uuid1\<close> and \<open>uuid2\<close> are the two results of \<open>randomUUID()\<close>, \<open>now\<close> is
  \<open>new Date()\<close>.
\<close>

definition publish ::
  "'a driver \<Rightarrow> string \<Rightarrow> 'a \<Rightarrow> publish_options option \<Rightarrow> string \<Rightarrow> string \<Rightarrow> int
     \<Rightarrow> 'a stored_message \<times> 'a driver" where
  "publish s q p options uuid1 uuid2 now =
     (let message = \<lparr>msg_id = uuid1, payload = p, publishedAt = now,
            expiresAt = (if truthy_num (chain options ttlSeconds)
                         then Some (now + the (chain options ttlSeconds) * 1000) else None),
            receipt = uuid2,
            attributes = chain options opt_attributes,
            correlationId = chain options opt_correlationId,
            queue = q\<rparr>
      in if truthy_num (chain options delaySeconds)
         then (message,
               snd (setTimeout s now (the (chain options delaySeconds) * 1000) (PushCb q message)))
         else (message, push s q message))"

text \<open>The test of the reducer in \<open>pull\<close>: \<open>msg.expiresAt && msg.expiresAt.getTime() <= now\<close>.\<close>

definition is_expired :: "int \<Rightarrow> ('a, 'm) queue_message_scheme \<Rightarrow> bool" where
  "is_expired now msg = (case expiresAt msg of None \<Rightarrow> False | Some e \<Rightarrow> e \<le> now)"

text \<open>The reducer of \<open>pull\<close>, on the accumulator \<open>[valid, expired]\<close>.\<close>

definition partition_step ::
  "int \<Rightarrow> 'a stored_message list \<times> 'a stored_message list \<Rightarrow> 'a stored_message
     \<Rightarrow> 'a stored_message list \<times> 'a stored_message list" where
  "partition_step now acc msg =
     (if is_expired now msg then (fst acc, snd acc @ [msg]) else (fst acc @ [msg], snd acc))"

text \<open>
  \<open>pull\<close>: \<open>valid.splice(0, maxMessages)\<close> removes and returns the first
  \<open>min (max maxMessages 0) (length valid)\<close> elements; \<open>maxMessages\<close> defaults to 1.
\<close>

definition pull ::
  "'a driver \<Rightarrow> string \<Rightarrow> int option \<Rightarrow> int \<Rightarrow> 'a stored_message list \<times> 'a driver" where
  "pull s q maxMessages_arg now =
     (let k = (case maxMessages_arg of None \<Rightarrow> 1 | Some n \<Rightarrow> n);
          stored = stored_of s q;
          (valid, expired) = foldl (partition_step now) ([], []) stored;
          messages = take (nat k) valid;
          rest = drop (nat k) valid
      in (messages, s\<lparr>queues := (queues s)(q \<mapsto> rest)\<rparr>))"

definition ack :: "'a driver \<Rightarrow> string \<Rightarrow> string \<Rightarrow> 'a driver" where
  "ack s q r =
     s\<lparr>queues := (queues s)(q \<mapsto> filter (\<lambda>msg. receipt msg \<noteq> r) (stored_of s q))\<rparr>"

subsection \<open>The subscription poller\<close>

definition set_phase :: "'a driver \<Rightarrow> nat \<Rightarrow> 'a phase \<Rightarrow> 'a driver" where
  "set_phase s i ph = s\<lparr>subs := (subs s)[i := (subs s ! i)\<lparr>phase := ph\<rparr>]\<rparr>"

text \<open>
  The end of \<open>poll\<close>: \<open>if (isActive)\<close> the next poll is scheduled and its timer
  identifier is appended to the list kept for the queue.
\<close>

definition finish :: "'a driver \<Rightarrow> nat \<Rightarrow> int \<Rightarrow> 'a driver" where
  "finish s i now =
     (let sub = subs s ! i; s0 = set_phase s i Idle
      in if isActive sub
         then (let (timeoutId, s1) = setTimeout s0 now (pollIntervalMs sub) (PollCb i)
               in s1\<lparr>subscriptions :=
                     (subscriptions s1)(sub_queue sub \<mapsto> timeouts_of s1 (sub_queue sub) @ [timeoutId])\<rparr>)
         else s0)"

text \<open>
  The head of the \<open>for\<close> loop over the batch: it ends when the batch is used up or the
  subscription is no longer active, and otherwise calls the handler on the next message.
\<close>

definition loop :: "'a driver \<Rightarrow> nat \<Rightarrow> 'a stored_message list \<Rightarrow> int \<Rightarrow> 'a driver" where
  "loop s i batch now =
     (case batch of
        [] \<Rightarrow> finish s i now
      | message # rest \<Rightarrow>
          if \<not> isActive (subs s ! i) then finish s i now
          else set_phase s i (AwaitHandler message rest))"

text \<open>
  The \<open>catch\<close> block of the loop body with \<open>autoAck\<close> off:
  \<open>stored.unshift(message); this.queues.set(queue, stored)\<close>.
\<close>

definition requeue :: "'a driver \<Rightarrow> string \<Rightarrow> 'a stored_message \<Rightarrow> 'a driver" where
  "requeue s q message = s\<lparr>queues := (queues s)(q \<mapsto> message # stored_of s q)\<rparr>"

text \<open>
  A call of \<open>poll\<close> (from \<open>subscribe\<close> or from a timer) up to its first \<open>await\<close>. The
  first component is what its \<open>pull\<close> returned.
\<close>

definition poll_start :: "'a driver \<Rightarrow> nat \<Rightarrow> int \<Rightarrow> 'a stored_message list \<times> 'a driver" where
  "poll_start s i now =
     (let sub = subs s ! i
      in if \<not> isActive sub then ([], s)
         else (let (messages, s1) = pull s (sub_queue sub) (Some (maxMessages sub)) now
               in (messages, set_phase s1 i (AwaitPull messages))))"

text \<open>
  \<open>poll\<close> resumed from an \<open>await\<close> up to the next one; \<open>ok\<close> says whether the handler's
  promise was fulfilled (it is read only when the closure waits for the handler).
\<close>

definition resume :: "'a driver \<Rightarrow> nat \<Rightarrow> bool \<Rightarrow> int \<Rightarrow> 'a driver" where
  "resume s i ok now =
     (let sub = subs s ! i
      in case phase sub of
           Idle \<Rightarrow> s
         | AwaitPull messages \<Rightarrow> loop s i messages now
         | AwaitHandler message rest \<Rightarrow>
             if ok then
               (if autoAck sub
                then set_phase (ack s (sub_queue sub) (receipt message)) i (AwaitAck rest)
                else loop s i rest now)
             else
               (if \<not> autoAck sub
                then loop (requeue s (sub_queue sub) message) i rest now
                else loop s i rest now)
         | AwaitAck rest \<Rightarrow> loop s i rest now)"

text \<open>
  \<open>subscribe\<close>: the closure is created active, with the defaults of the destructuring,
  and \<open>poll()\<close> is called at once. The handle returned is the index of the closure.
\<close>

definition subscribe ::
  "'a driver \<Rightarrow> string \<Rightarrow> subscribe_options option \<Rightarrow> int
     \<Rightarrow> nat \<times> 'a stored_message list \<times> 'a driver" where
  "subscribe s q options now =
     (let i = length (subs s);
          sub = \<lparr>sub_queue = q,
                 maxMessages = (case chain options opt_maxMessages of None \<Rightarrow> 1 | Some n \<Rightarrow> n),
                 pollIntervalMs = (case chain options opt_pollIntervalMs of None \<Rightarrow> 1000 | Some n \<Rightarrow> n),
                 autoAck = (case chain options opt_autoAck of None \<Rightarrow> False | Some b \<Rightarrow> b),
                 isActive = True, phase = Idle\<rparr>;
          (messages, s1) = poll_start (s\<lparr>subs := subs s @ [sub]\<rparr>) i now
      in (i, messages, s1))"

text \<open>
  \<open>unsubscribe\<close> of the handle \<open>i\<close>: the flag of that closure is cleared, every timer
  identifier kept for the queue is cleared, and the list kept for the queue is emptied.
\<close>

definition unsubscribe :: "'a driver \<Rightarrow> nat \<Rightarrow> 'a driver" where
  "unsubscribe s i =
     (let sub = subs s ! i;
          s0 = s\<lparr>subs := (subs s)[i := sub\<lparr>isActive := False\<rparr>]\<rparr>;
          s1 = clearTimeouts s0 (timeouts_of s0 (sub_queue sub))
      in s1\<lparr>subscriptions := (subscriptions s1)(sub_queue sub \<mapsto> [])\<rparr>)"

text \<open>
  The runtime runs the pending timer \<open>tid\<close> when \<open>Date.now()\<close> reads \<open>now\<close>: nothing
  happens when no such timer is pending or its due time (which \<open>setTimeout\<close> counted from
  the runtime's clock) has not come; otherwise the timer is removed and its callback is
  run. The first component is what a \<open>pull\<close> made by the callback returned.
\<close>

definition fire :: "'a driver \<Rightarrow> nat \<Rightarrow> int \<Rightarrow> 'a stored_message list \<times> 'a driver" where
  "fire s tid now =
     (case find (\<lambda>t. fst t = tid) (timers s) of
        None \<Rightarrow> ([], s)
      | Some (_, due, cb) \<Rightarrow>
          if now < due then ([], s)
          else (let s0 = s\<lparr>timers := filter (\<lambda>t. fst t \<noteq> tid) (timers s)\<rparr>
                in case cb of
                     PushCb q message \<Rightarrow> ([], push s0 q message)
                   | PollCb i \<Rightarrow> poll_start s0 i now))"

text \<open>
  One step of the world around the driver, with the reading of \<open>Date.now()\<close> at that
  moment: a call of the driver by some client, a timer that the runtime runs, a suspended
  \<open>poll\<close> that is resumed (with the outcome of the handler it may be waiting for), or
  the runtime's clock falling behind \<open>Date.now()\<close> by the given number of milliseconds.
\<close>

datatype 'a event =
    Publish string 'a "publish_options option" string string
  | Pull string "int option"
  | Ack string string
  | Subscribe string "subscribe_options option"
  | Unsubscribe nat
  | Fire nat
  | Resume nat bool
  | Lag nat

text \<open>
  The messages a step hands out through \<open>pull\<close>, and the state after it. A handle is a
  closure that \<open>subscribe\<close> returned, so an index that no call of \<open>subscribe\<close> returned
  stands for nothing and the step is ignored.
\<close>

fun step :: "'a driver \<Rightarrow> int \<times> 'a event \<Rightarrow> 'a stored_message list \<times> 'a driver" where
  "step s (now, Publish q p options uuid1 uuid2) = ([], snd (publish s q p options uuid1 uuid2 now))"
| "step s (now, Pull q k) = pull s q k now"
| "step s (now, Ack q r) = ([], ack s q r)"
| "step s (now, Subscribe q options) = snd (subscribe s q options now)"
| "step s (now, Unsubscribe i) = ([], if i < length (subs s) then unsubscribe s i else s)"
| "step s (now, Fire tid) = fire s tid now"
| "step s (now, Resume i ok) = ([], if i < length (subs s) then resume s i ok now else s)"
| "step s (now, Lag n) = ([], s\<lparr>loop_lag := n\<rparr>)"

fun run :: "'a driver \<Rightarrow> (int \<times> 'a event) list \<Rightarrow> 'a stored_message list \<times> 'a driver" where
  "run s [] = ([], s)"
| "run s (e # es) =
     (let (out1, s1) = step s e; (out2, s2) = run s1 es in (out1 @ out2, s2))"


section \<open>Errors\<close>

text \<open>
  A thrown \<open>Error\<close> (of the driver or of a backend client) and the facade's
  \<open>BadRequestException\<close>, each with its message. A function that can throw returns
  \<open>error + 'r\<close>, with \<open>Inl\<close> for the throw.
\<close>

datatype error = Error string | BadRequestException string

section \<open>The cloud queue driver (sqs.driver.ts)\<close>

record sqs_attribute =
  DataType :: string
  StringValue :: "string option"

type_synonym sqs_attributes = "(string \<times> sqs_attribute) list"

record sqs_raw_message =
  MessageId :: "string option"
  ReceiptHandle :: "string option"
  Body :: "string option"
  SentTimestamp :: "string option"
  MessageAttributes :: "sqs_attributes option"

datatype sqs_command =
    GetQueueUrlCommand string
  | CreateQueueCommand string
  | SendMessageCommand string string "int option" sqs_attributes
  | ReceiveMessageCommand string int
  | DeleteMessageCommand string string

record sqs_response =
  res_QueueUrl :: "string option"
  res_MessageId :: "string option"
  res_SequenceNumber :: "string option"
  res_Messages :: "sqs_raw_message list option"

text \<open>
  The service behind \<open>this.client.send\<close>: what it answers to a command may depend on the
  commands sent before.
\<close>

type_synonym sqs_client = "sqs_command list \<Rightarrow> sqs_command \<Rightarrow> error + sqs_response"

record sqs_driver =
  queueUrlCache :: "string \<rightharpoonup> string"
  sent :: "sqs_command list"

definition send :: "sqs_client \<Rightarrow> sqs_driver \<Rightarrow> sqs_command \<Rightarrow> (error + sqs_response) \<times> sqs_driver" where
  "send client st cmd = (client (sent st) cmd, st\<lparr>sent := sent st @ [cmd]\<rparr>)"

definition ensureQueue :: "sqs_client \<Rightarrow> sqs_driver \<Rightarrow> string \<Rightarrow> (error + string) \<times> sqs_driver" where
  "ensureQueue client st q =
     (case queueUrlCache st q of
        Some url \<Rightarrow> (Inr url, st)
      | None \<Rightarrow>
          (let (urlRes, st1) = send client st (GetQueueUrlCommand q);
               found = (case urlRes of Inl err \<Rightarrow> None
                        | Inr res \<Rightarrow> if truthy_str (res_QueueUrl res) then res_QueueUrl res else None)
           in case found of
                Some url \<Rightarrow> (Inr url, st1\<lparr>queueUrlCache := (queueUrlCache st1)(q \<mapsto> url)\<rparr>)
              | None \<Rightarrow>
                  (let (createRes, st2) = send client st1 (CreateQueueCommand q)
                   in case createRes of
                        Inl err \<Rightarrow> (Inl err, st2)
                      | Inr res \<Rightarrow>
                          if \<not> truthy_str (res_QueueUrl res)
                          then (Inl (Error (''Unable to create or find queue \"'' @ q @ ''\"'')), st2)
                          else (Inr (the (res_QueueUrl res)),
                                st2\<lparr>queueUrlCache := (queueUrlCache st2)(q \<mapsto> the (res_QueueUrl res))\<rparr>))))"

text \<open>
  \<open>toMessageAttributes\<close>: the reducer spreads the accumulator and sets the key, which
  on an association list is \<open>AList.update\<close>.
\<close>

definition toMessageAttributes :: "publish_options option \<Rightarrow> sqs_attributes" where
  "toMessageAttributes options =
     (let attrs = (case chain options opt_attributes of
                     None \<Rightarrow> None
                   | Some entries \<Rightarrow>
                       Some (foldl (\<lambda>acc (key, v).
                               AList.update key \<lparr>DataType = ''String'', StringValue = Some v\<rparr> acc)
                             [] entries));
          base = (case attrs of None \<Rightarrow> [] | Some a \<Rightarrow> a)
      in if truthy_str (chain options opt_correlationId)
         then AList.update ''correlationId''
                \<lparr>DataType = ''String'', StringValue = chain options opt_correlationId\<rparr> base
         else base)"

text \<open>
  \<open>publish\<close>: \<open>stringify\<close> is \<open>JSON.stringify\<close> on the payload type, \<open>now\<close> the
  \<open>new Date()\<close> taken after the send.
\<close>

definition sqs_publish ::
  "sqs_client \<Rightarrow> ('a \<Rightarrow> string) \<Rightarrow> sqs_driver \<Rightarrow> string \<Rightarrow> 'a \<Rightarrow> publish_options option \<Rightarrow> int
     \<Rightarrow> (error + 'a queue_message) \<times> sqs_driver" where
  "sqs_publish client stringify st q p options now =
     (case ensureQueue client st q of
        (Inl err, st1) \<Rightarrow> (Inl err, st1)
      | (Inr queueUrl, st1) \<Rightarrow>
          (case send client st1
                  (SendMessageCommand queueUrl (stringify p) (chain options delaySeconds)
                     (toMessageAttributes options)) of
             (Inl err, st2) \<Rightarrow> (Inl err, st2)
           | (Inr response, st2) \<Rightarrow>
               (Inr \<lparr>msg_id = (case res_MessageId response of None \<Rightarrow> [] | Some i \<Rightarrow> i),
                     payload = p,
                     publishedAt = now,
                     expiresAt = (case chain options ttlSeconds of None \<Rightarrow> None
                                  | Some ttl \<Rightarrow> Some (now + ttl * 1000)),
                     receipt = (case res_SequenceNumber response of
                                  Some n \<Rightarrow> n
                                | None \<Rightarrow> (case res_MessageId response of None \<Rightarrow> [] | Some i \<Rightarrow> i)),
                     attributes = chain options opt_attributes,
                     correlationId = chain options opt_correlationId\<rparr>,
                st2)))"

text \<open>
  A pulled payload is the parsed body, or the raw text when \<open>JSON.parse\<close> throws
  (\<open>parse\<close> returns \<open>None\<close>).
\<close>

datatype 'a body = Parsed 'a | RawText string

definition parse_body :: "(string \<Rightarrow> 'a option) \<Rightarrow> string \<Rightarrow> 'a body" where
  "parse_body parse raw = (case parse raw of None \<Rightarrow> RawText raw | Some v \<Rightarrow> Parsed v)"

text \<open>
  \<open>acc[key] = value\<close> with a string value, on an object that began as \<open>{}\<close>: the key
  \<open>__proto__\<close> names the accessor of \<open>Object.prototype\<close>, whose setter ignores a string,
  so no property is made; any other key gets the value.
\<close>

definition assign :: "attrs \<Rightarrow> string \<Rightarrow> string \<Rightarrow> attrs" where
  "assign acc key v = (if key = ''__proto__'' then acc else AList.update key v acc)"

text \<open>
  The mapping of one received message in \<open>pull\<close>; \<open>to_number\<close> is \<open>Number\<close> on the
  timestamp text, \<open>now\<close> is \<open>new Date()\<close>. The attributes are built by the reducer over
  the entries of \<open>MessageAttributes\<close>.
\<close>

definition sqs_to_message ::
  "(string \<Rightarrow> 'a option) \<Rightarrow> (string \<Rightarrow> int) \<Rightarrow> int \<Rightarrow> sqs_raw_message \<Rightarrow> 'a body queue_message" where
  "sqs_to_message parse to_number now msg =
     (let raw = (case Body msg of None \<Rightarrow> [] | Some b \<Rightarrow> b);
          entries = (case MessageAttributes msg of None \<Rightarrow> [] | Some a \<Rightarrow> a)
      in \<lparr>msg_id = (case MessageId msg of None \<Rightarrow> [] | Some i \<Rightarrow> i),
          payload = parse_body parse raw,
          publishedAt = (if truthy_str (SentTimestamp msg) then to_number (the (SentTimestamp msg))
                         else now),
          expiresAt = None,
          receipt = (case ReceiptHandle msg of None \<Rightarrow> [] | Some r \<Rightarrow> r),
          attributes =
            Some (foldl (\<lambda>acc (key, v).
                     if key \<noteq> ''correlationId'' \<and> truthy_str (StringValue v)
                     then assign acc key (the (StringValue v)) else acc)
                   [] entries),
          correlationId =
            (case map_of entries ''correlationId'' of None \<Rightarrow> None | Some v \<Rightarrow> StringValue v)\<rparr>)"

definition sqs_pull ::
  "sqs_client \<Rightarrow> (string \<Rightarrow> 'a option) \<Rightarrow> (string \<Rightarrow> int) \<Rightarrow> sqs_driver \<Rightarrow> string \<Rightarrow> int option
     \<Rightarrow> int \<Rightarrow> (error + 'a body queue_message list) \<times> sqs_driver" where
  "sqs_pull client parse to_number st q maxMessages_arg now =
     (let k = (case maxMessages_arg of None \<Rightarrow> 1 | Some n \<Rightarrow> n)
      in case ensureQueue client st q of
           (Inl err, st1) \<Rightarrow> (Inl err, st1)
         | (Inr queueUrl, st1) \<Rightarrow>
             (case send client st1 (ReceiveMessageCommand queueUrl (min 10 (max 1 k))) of
                (Inl err, st2) \<Rightarrow> (Inl err, st2)
              | (Inr res, st2) \<Rightarrow>
                  (Inr (map (sqs_to_message parse to_number now)
                          (case res_Messages res of None \<Rightarrow> [] | Some ms \<Rightarrow> ms)),
                   st2)))"

definition sqs_ack :: "sqs_client \<Rightarrow> sqs_driver \<Rightarrow> string \<Rightarrow> string \<Rightarrow> (error + unit) \<times> sqs_driver" where
  "sqs_ack client st q r =
     (case ensureQueue client st q of
        (Inl err, st1) \<Rightarrow> (Inl err, st1)
      | (Inr queueUrl, st1) \<Rightarrow>
          if r = [] then (Inr (), st1)
          else (case send client st1 (DeleteMessageCommand queueUrl r) of
                  (Inl err, st2) \<Rightarrow> (Inl err, st2)
                | (Inr res, st2) \<Rightarrow> (Inr (), st2)))"

text \<open>
  The bookkeeping of \<open>subscribe\<close> that \<open>unsubscribe\<close> touches: each call of
  \<open>subscribe\<close> owns one \<open>subscription\<close> object (its flag and the identifier of the timer
  it scheduled last) and a key made of the queue name and the clock, under which the
  object is entered in \<open>activeSubscriptions\<close>; the runtime's pending timers are kept by
  identifier.
\<close>

record sqs_subscription =
  subscriptionKey :: string
  sqs_isActive :: bool
  sqs_timeoutId :: "nat option"

record sqs_poller =
  sqs_subs :: "sqs_subscription list"
  activeSubscriptions :: "string \<rightharpoonup> nat"
  sqs_timers :: "nat list"

text \<open>
  The handle's \<open>unsubscribe\<close>: the flag of the own object is cleared, the own timer is
  cleared when one was stored, and the entry under the own key is deleted.
\<close>

definition sqs_unsubscribe :: "sqs_poller \<Rightarrow> nat \<Rightarrow> sqs_poller" where
  "sqs_unsubscribe s i =
     (let sub = sqs_subs s ! i
      in \<lparr>sqs_subs = (sqs_subs s)[i := sub\<lparr>sqs_isActive := False\<rparr>],
          activeSubscriptions = (activeSubscriptions s)(subscriptionKey sub := None),
          sqs_timers = (case sqs_timeoutId sub of
                          None \<Rightarrow> sqs_timers s
                        | Some t \<Rightarrow> filter (\<lambda>x. x \<noteq> t) (sqs_timers s))\<rparr>)"

section \<open>Text as a number\<close>

definition is_digit :: "char \<Rightarrow> bool" where
  "is_digit c = (48 \<le> (of_char c :: nat) \<and> (of_char c :: nat) \<le> 57)"

definition is_space :: "char \<Rightarrow> bool" where
  "is_space c = ((of_char c :: nat) \<in> {9, 10, 11, 12, 13, 32})"

definition digits_value :: "string \<Rightarrow> int" where
  "digits_value ds = foldl (\<lambda>acc c. acc * 10 + (int (of_char c) - 48)) 0 ds"

text \<open>
  \<open>parseInt(text, 10)\<close> on a text of ASCII characters: leading white space is skipped, a
  sign is read, then the longest run of decimal digits; \<open>None\<close> is \<open>NaN\<close> (no digit
  there). The value is the exact integer, which is what \<open>parseInt\<close> returns up to
  \<open>2 ^ 53\<close>; beyond that a JavaScript number is the nearest double.
\<close>

definition parseInt10 :: "string \<Rightarrow> int option" where
  "parseInt10 text =
     (let t = dropWhile is_space text;
          negative = (case t of [] \<Rightarrow> False | c # r \<Rightarrow> c = CHR ''-'');
          u = (case t of [] \<Rightarrow> [] | c # r \<Rightarrow> if c = CHR ''-'' \<or> c = CHR ''+'' then r else t);
          ds = takeWhile is_digit u
      in if ds = [] then None
         else Some (if negative then - digits_value ds else digits_value ds))"

section \<open>The broker driver (rabbitmq.driver.ts)\<close>

text \<open>A header value is a string or something else (\<open>typeof value === 'string'\<close>).\<close>

datatype header_value = HString string | HOther

record amqp_properties =
  messageId :: "string option"
  prop_correlationId :: "string option"
  headers :: "(string \<times> header_value) list option"
  timestamp :: "int option"
  expiration :: "int option"
  persistent :: bool

record amqp_message =
  content :: string
  properties :: amqp_properties
  deliveryTag :: nat

text \<open>
  The broker as the driver sees it: the outcome of \<open>amqp.connect\<close>, of
  \<open>createChannel\<close> on a connection, of \<open>assertQueue\<close>, \<open>sendToQueue\<close> and \<open>ack\<close> on a
  channel.
\<close>

record amqp_env =
  amqp_connect :: "error + nat"
  amqp_createChannel :: "nat \<Rightarrow> error + nat"
  amqp_assertQueue :: "nat \<Rightarrow> string \<Rightarrow> error option"
  amqp_sendToQueue :: "nat \<Rightarrow> string \<Rightarrow> string \<Rightarrow> amqp_properties \<Rightarrow> bool"
  amqp_ack :: "nat \<Rightarrow> int option \<Rightarrow> error option"

record rabbit_driver =
  connection :: "nat option"
  channels :: "string \<rightharpoonup> nat"

definition getConnection :: "amqp_env \<Rightarrow> rabbit_driver \<Rightarrow> (error + nat) \<times> rabbit_driver" where
  "getConnection env st =
     (case connection st of
        Some conn \<Rightarrow> (Inr conn, st)
      | None \<Rightarrow>
          (case amqp_connect env of
             Inl err \<Rightarrow> (Inl err, st)
           | Inr conn \<Rightarrow> (Inr conn, st\<lparr>connection := Some conn\<rparr>)))"

definition getChannel :: "amqp_env \<Rightarrow> rabbit_driver \<Rightarrow> string \<Rightarrow> (error + nat) \<times> rabbit_driver" where
  "getChannel env st q =
     (case channels st q of
        Some channel \<Rightarrow> (Inr channel, st)
      | None \<Rightarrow>
          (case getConnection env st of
             (Inl err, st1) \<Rightarrow> (Inl err, st1)
           | (Inr conn, st1) \<Rightarrow>
               (case amqp_createChannel env conn of
                  Inl err \<Rightarrow> (Inl err, st1)
                | Inr channel \<Rightarrow>
                    (case amqp_assertQueue env channel q of
                       Some err \<Rightarrow> (Inl err, st1)
                     | None \<Rightarrow> (Inr channel, st1\<lparr>channels := (channels st1)(q \<mapsto> channel)\<rparr>)))))"

text \<open>
  The publish options \<open>publish\<close> builds: \<open>generated\<close> is the message identifier made
  from the clock and \<open>Math.random()\<close>. The expiration is kept as the number of
  milliseconds that the source turns into text.
\<close>

definition publishOptions :: "publish_options option \<Rightarrow> string \<Rightarrow> amqp_properties" where
  "publishOptions options generated =
     (let corr = (if truthy_str (chain options opt_correlationId)
                  then the (chain options opt_correlationId) else generated);
          hdrs = AList.update ''correlationId'' (HString corr)
                   (map (\<lambda>(key, v). (key, HString v))
                      (case chain options opt_attributes of None \<Rightarrow> [] | Some a \<Rightarrow> a))
      in \<lparr>messageId = Some generated, prop_correlationId = Some corr,
          headers = Some hdrs, timestamp = None,
          expiration =
            (if truthy_num (chain options delaySeconds)
             then Some (the (chain options delaySeconds) * 1000)
             else if truthy_num (chain options ttlSeconds)
             then Some (the (chain options ttlSeconds) * 1000) else None),
          persistent = True\<rparr>)"

text \<open>\<open>publish\<close>: \<open>stringify\<close> is \<open>JSON.stringify\<close>, \<open>now\<close> is \<open>new Date()\<close>.\<close>

definition rabbit_publish ::
  "amqp_env \<Rightarrow> ('a \<Rightarrow> string) \<Rightarrow> rabbit_driver \<Rightarrow> string \<Rightarrow> 'a \<Rightarrow> publish_options option
     \<Rightarrow> string \<Rightarrow> int \<Rightarrow> (error + 'a queue_message) \<times> rabbit_driver" where
  "rabbit_publish env stringify st q p options generated now =
     (case getChannel env st q of
        (Inl err, st1) \<Rightarrow> (Inl err, st1)
      | (Inr channel, st1) \<Rightarrow>
          (let corr = (if truthy_str (chain options opt_correlationId)
                       then the (chain options opt_correlationId) else generated)
           in if \<not> amqp_sendToQueue env channel q (stringify p) (publishOptions options generated)
              then (Inl (Error (''Failed to publish message to queue \"'' @ q @ ''\"'')), st1)
              else (Inr \<lparr>msg_id = generated, payload = p, publishedAt = now,
                         expiresAt = (case chain options ttlSeconds of None \<Rightarrow> None
                                      | Some ttl \<Rightarrow> Some (now + ttl * 1000)),
                         receipt = generated,
                         attributes = chain options opt_attributes,
                         correlationId = Some corr\<rparr>,
                    st1)))"

text \<open>
  The message \<open>pull\<close> builds from one fetched delivery; \<open>fallback\<close> is the identifier
  made up from the clock and the loop index when the delivery has none, and \<open>tag_text\<close>
  is \<open>toString\<close> of the runtime on the delivery tag. The attributes are built by the
  reducer over the entries of the headers.
\<close>

definition rabbit_to_message ::
  "(string \<Rightarrow> 'a option) \<Rightarrow> (nat \<Rightarrow> string) \<Rightarrow> int \<Rightarrow> string \<Rightarrow> amqp_message
     \<Rightarrow> 'a body queue_message" where
  "rabbit_to_message parse tag_text now fallback msg =
     (let props = properties msg
      in \<lparr>msg_id = (if truthy_str (messageId props) then the (messageId props) else fallback),
          payload = parse_body parse (content msg),
          publishedAt = (if truthy_num (timestamp props) then the (timestamp props) * 1000 else now),
          expiresAt = None,
          receipt = tag_text (deliveryTag msg),
          attributes =
            (case headers props of
               None \<Rightarrow> None
             | Some hs \<Rightarrow>
                 Some (foldl (\<lambda>acc (key, v).
                          case v of
                            HString str \<Rightarrow> (if key \<noteq> ''correlationId'' then assign acc key str else acc)
                          | HOther \<Rightarrow> acc)
                        [] hs)),
          correlationId =
            (if truthy_str (prop_correlationId props) then prop_correlationId props
             else messageId props)\<rparr>)"

text \<open>
  The loop of \<open>pull\<close>: \<open>get i\<close> is the outcome of the \<open>i\<close>-th \<open>channel.get\<close> (a throw,
  nothing there, or a delivery), \<open>fallback i\<close> the identifier made up for it.
\<close>

fun rabbit_pull_loop ::
  "(nat \<Rightarrow> error + amqp_message option) \<Rightarrow> (string \<Rightarrow> 'a option) \<Rightarrow> (nat \<Rightarrow> string) \<Rightarrow> int
     \<Rightarrow> (nat \<Rightarrow> string) \<Rightarrow> nat \<Rightarrow> nat \<Rightarrow> error + 'a body queue_message list" where
  "rabbit_pull_loop get parse tag_text now fallback i 0 = Inr []"
| "rabbit_pull_loop get parse tag_text now fallback i (Suc n) =
     (case get i of
        Inl err \<Rightarrow> Inl err
      | Inr None \<Rightarrow> Inr []
      | Inr (Some msg) \<Rightarrow>
          (case rabbit_pull_loop get parse tag_text now fallback (Suc i) n of
             Inl err \<Rightarrow> Inl err
           | Inr messages \<Rightarrow>
               Inr (rabbit_to_message parse tag_text now (fallback i) msg # messages)))"

definition rabbit_pull ::
  "amqp_env \<Rightarrow> (nat \<Rightarrow> error + amqp_message option) \<Rightarrow> (string \<Rightarrow> 'a option) \<Rightarrow> (nat \<Rightarrow> string)
     \<Rightarrow> (nat \<Rightarrow> string) \<Rightarrow> rabbit_driver \<Rightarrow> string \<Rightarrow> int option \<Rightarrow> int
     \<Rightarrow> (error + 'a body queue_message list) \<times> rabbit_driver" where
  "rabbit_pull env get parse tag_text fallback st q maxMessages_arg now =
     (let k = (case maxMessages_arg of None \<Rightarrow> 1 | Some n \<Rightarrow> n)
      in case getChannel env st q of
           (Inl err, st1) \<Rightarrow> (Inl err, st1)
         | (Inr channel, st1) \<Rightarrow> (rabbit_pull_loop get parse tag_text now fallback 0 (nat k), st1))"

definition rabbit_ack ::
  "amqp_env \<Rightarrow> rabbit_driver \<Rightarrow> string \<Rightarrow> string \<Rightarrow> (error + unit) \<times> rabbit_driver" where
  "rabbit_ack env st q r =
     (case getChannel env st q of
        (Inl err, st1) \<Rightarrow> (Inl err, st1)
      | (Inr channel, st1) \<Rightarrow>
          (case amqp_ack env channel (parseInt10 r) of
             Some err \<Rightarrow> (Inl err, st1)
           | None \<Rightarrow> (Inr (), st1)))"

section \<open>The facade (queue.service.ts)\<close>

text \<open>
  The registry is the \<open>Map\<close> from provider names to drivers, in insertion order. A
  facade operation either throws, or calls one method of one driver with the given
  arguments and returns what that call returns; the call is recorded as data.
\<close>

datatype ('a, 'h) driver_call =
    PublishCall string 'a "publish_options option"
  | PullCall string "int option"
  | AckCall string string
  | SubscribeCall string 'h "subscribe_options option"

fun join :: "string \<Rightarrow> string list \<Rightarrow> string" where
  "join sep [] = []"
| "join sep [x] = x"
| "join sep (x # y # ys) = x @ sep @ join sep (y # ys)"

definition getDriver :: "(string \<times> 'd) list \<Rightarrow> string \<Rightarrow> error + 'd" where
  "getDriver drivers provider =
     (case map_of drivers provider of
        None \<Rightarrow>
          Inl (BadRequestException
                 (''Invalid queue provider: '' @ provider @ ''. Available providers: ''
                    @ join '', '' (map fst drivers)))
      | Some driver \<Rightarrow> Inr driver)"

definition service_publish ::
  "(string \<times> 'd) list \<Rightarrow> string \<Rightarrow> string \<Rightarrow> 'a \<Rightarrow> publish_options option
     \<Rightarrow> error + 'd \<times> ('a, 'h) driver_call" where
  "service_publish drivers provider q p options =
     (case getDriver drivers provider of
        Inl err \<Rightarrow> Inl err
      | Inr driver \<Rightarrow> Inr (driver, PublishCall q p options))"

definition service_pull ::
  "(string \<times> 'd) list \<Rightarrow> string \<Rightarrow> string \<Rightarrow> int option \<Rightarrow> error + 'd \<times> ('a, 'h) driver_call" where
  "service_pull drivers provider q maxMessages_arg =
     (case getDriver drivers provider of
        Inl err \<Rightarrow> Inl err
      | Inr driver \<Rightarrow> Inr (driver, PullCall q maxMessages_arg))"

definition service_ack ::
  "(string \<times> 'd) list \<Rightarrow> string \<Rightarrow> string \<Rightarrow> string \<Rightarrow> error + 'd \<times> ('a, 'h) driver_call" where
  "service_ack drivers provider q r =
     (case getDriver drivers provider of
        Inl err \<Rightarrow> Inl err
      | Inr driver \<Rightarrow> Inr (driver, AckCall q r))"

definition service_subscribe ::
  "(string \<times> 'd) list \<Rightarrow> string \<Rightarrow> string \<Rightarrow> 'h \<Rightarrow> subscribe_options option
     \<Rightarrow> error + 'd \<times> ('a, 'h) driver_call" where
  "service_subscribe drivers provider q handler options =
     (case getDriver drivers provider of
        Inl err \<Rightarrow> Inl err
      | Inr driver \<Rightarrow> Inr (driver, SubscribeCall q handler options))"

section \<open>Predicates and scenarios used in the statements\<close>

text \<open>No message of the list has the identifier \<open>u\<close>.\<close>

definition without_id :: "string \<Rightarrow> 'a stored_message list \<Rightarrow> bool" where
  "without_id u xs = (\<forall>m \<in> set xs. msg_id m \<noteq> u)"

text \<open>The messages a suspended \<open>poll\<close> holds.\<close>

fun phase_msgs :: "'a phase \<Rightarrow> 'a stored_message list" where
  "phase_msgs Idle = []"
| "phase_msgs (AwaitPull messages) = messages"
| "phase_msgs (AwaitHandler message rest) = message # rest"
| "phase_msgs (AwaitAck rest) = rest"

text \<open>The callback is a delayed \<open>push\<close> of a message with the identifier \<open>u\<close>.\<close>

fun carries :: "string \<Rightarrow> 'a callback \<Rightarrow> bool" where
  "carries u (PushCb q message) = (msg_id message = u)"
| "carries u (PollCb i) = False"

text \<open>
  No message with the identifier \<open>u\<close> is in a queue's buffer or held by a suspended
  \<open>poll\<close>, and a pending timer that would push one is due at \<open>D\<close> at the earliest.
\<close>

definition hidden :: "string \<Rightarrow> int \<Rightarrow> 'a driver \<Rightarrow> bool" where
  "hidden u D s =
     ((\<forall>q. without_id u (stored_of s q)) \<and>
      (\<forall>sub \<in> set (subs s). without_id u (phase_msgs (phase sub))) \<and>
      (\<forall>t \<in> set (timers s). carries u (snd (snd t)) \<longrightarrow> D \<le> fst (snd t)))"

text \<open>
  Subscription \<open>i\<close> exists and is not active, and every pending timer that would call
  its \<open>poll\<close> is one of \<open>T\<close>.
\<close>

definition cancelled :: "nat \<Rightarrow> (nat \<times> int \<times> 'a callback) set \<Rightarrow> 'a driver \<Rightarrow> bool" where
  "cancelled i T s =
     (i < length (subs s) \<and> \<not> isActive (subs s ! i) \<and>
      (\<forall>t \<in> set (timers s). snd (snd t) = PollCb i \<longrightarrow> t \<in> T))"

text \<open>The event is a \<open>publish\<close> whose first \<open>randomUUID()\<close> gives \<open>u\<close>.\<close>

fun publishes :: "string \<Rightarrow> 'a event \<Rightarrow> bool" where
  "publishes u (Publish q p options uuid1 uuid2) = (uuid1 = u)"
| "publishes u _ = False"

text \<open>Publish options with a time to live of one second, and with a delay of one second.\<close>

definition ttl1 :: publish_options where
  "ttl1 = \<lparr>delaySeconds = None, ttlSeconds = Some 1, opt_correlationId = None,
     opt_attributes = None\<rparr>"

definition delay1 :: publish_options where
  "delay1 = \<lparr>delaySeconds = Some 1, ttlSeconds = None, opt_correlationId = None,
     opt_attributes = None\<rparr>"

text \<open>Publish options with a delay of 2147484 seconds, which is 2147484000 ms.\<close>

definition long_delay :: publish_options where
  "long_delay = \<lparr>delaySeconds = Some 2147484, ttlSeconds = None, opt_correlationId = None,
     opt_attributes = None\<rparr>"

text \<open>
  A cloud driver that has sent nothing yet, with a service that knows every queue and
  rejects every delete command, and with one that knows no queue and creates any.
\<close>

definition new_sqs :: sqs_driver where
  "new_sqs = \<lparr>queueUrlCache = Map.empty, sent = []\<rparr>"

definition rejecting_client :: sqs_client where
  "rejecting_client history cmd =
     (case cmd of
        DeleteMessageCommand url r \<Rightarrow> Inl (Error ''ReceiptHandleIsInvalid'')
      | _ \<Rightarrow> Inr \<lparr>res_QueueUrl = Some ''http://queue'', res_MessageId = None,
                  res_SequenceNumber = None, res_Messages = None\<rparr>)"

definition creating_client :: sqs_client where
  "creating_client history cmd =
     (case cmd of
        GetQueueUrlCommand q \<Rightarrow> Inl (Error ''QueueDoesNotExist'')
      | _ \<Rightarrow> Inr \<lparr>res_QueueUrl = Some ''http://queue'', res_MessageId = None,
                  res_SequenceNumber = None, res_Messages = None\<rparr>)"

text \<open>A broker driver that is not connected yet, and a broker on which every call succeeds.\<close>

definition new_rabbit :: rabbit_driver where
  "new_rabbit = \<lparr>connection = None, channels = Map.empty\<rparr>"

definition working_broker :: amqp_env where
  "working_broker =
     \<lparr>amqp_connect = Inr 0, amqp_createChannel = (\<lambda>conn. Inr 0),
      amqp_assertQueue = (\<lambda>channel q. None),
      amqp_sendToQueue = (\<lambda>channel q buffer props. True),
      amqp_ack = (\<lambda>channel tag. None)\<rparr>"

text \<open>
  Two messages are published and pulled as one batch by a subscription with
  \<open>maxMessages = 2\<close> and \<open>autoAck\<close> off (\<open>batch_pulled\<close>); then the poll goes on and the
  handler throws on both (\<open>two_failures\<close>).
\<close>

definition batch_pulled :: "(int \<times> nat event) list" where
  "batch_pulled =
     [(0, Publish ''q'' 1 None ''a'' ''ra''), (0, Publish ''q'' 2 None ''b'' ''rb''),
      (0, Subscribe ''q''
            (Some \<lparr>opt_maxMessages = Some 2, opt_pollIntervalMs = None, opt_autoAck = None\<rparr>))]"


text \<open>The same, with a client's \<open>pull\<close> between the two failures.\<close>

definition interleaved_pull :: "(int \<times> nat event) list" where
  "interleaved_pull =
     batch_pulled @ [(0, Resume 0 True), (0, Resume 0 False), (0, Pull ''q'' None),
                     (0, Resume 0 False)]"

text \<open>
  Two subscriptions on the same queue; the first poll of each finds nothing and schedules
  the next one.
\<close>

definition two_subs :: "(int \<times> nat event) list" where
  "two_subs =
     [(0, Subscribe ''q'' None), (0, Resume 0 True),
      (0, Subscribe ''q'' None), (0, Resume 1 True)]"

text \<open>
  A subscription is made and cancelled; then a second one is made on the same queue and
  its first poll schedules the next one.
\<close>

definition resubscribed :: "(int \<times> nat event) list" where
  "resubscribed =
     [(0, Subscribe ''q'' None), (0, Resume 0 True), (10, Unsubscribe 0),
      (20, Subscribe ''q'' None), (20, Resume 1 True)]"

text \<open>Publish options with a correlation identifier and one attribute.\<close>

definition meta1 :: publish_options where
  "meta1 = \<lparr>delaySeconds = None, ttlSeconds = None, opt_correlationId = Some ''c1'',
     opt_attributes = Some [(''k'', ''v'')]\<rparr>"

text \<open>
  Publish options whose attributes have the own key \<open>__proto__\<close>; and what the backends
  deliver when they hand back the metadata a \<open>publish\<close> with the options \<open>meta1\<close> sent:
  a message received from the cloud service, and one fetched from the broker.
\<close>

definition proto1 :: publish_options where
  "proto1 = \<lparr>delaySeconds = None, ttlSeconds = None, opt_correlationId = None,
     opt_attributes = Some [(''__proto__'', ''x''), (''k'', ''v'')]\<rparr>"

definition sqs_delivery :: sqs_raw_message where
  "sqs_delivery = \<lparr>MessageId = Some ''m1'', ReceiptHandle = Some ''r1'', Body = Some ''7'',
     SentTimestamp = None, MessageAttributes = Some (toMessageAttributes (Some meta1))\<rparr>"

definition rabbit_delivery :: amqp_message where
  "rabbit_delivery = \<lparr>content = ''7'', properties = publishOptions (Some meta1) ''1700000000000-k3j2h1'',
     deliveryTag = 42\<rparr>"

text \<open>
  The registry as queue.module.ts fills it, with the drivers stood for by numbers.
\<close>

definition registry :: "(string \<times> nat) list" where
  "registry = [(''sqs'', 0), (''rabbitmq'', 1), (''memory'', 2)]"

section \<open>Properties of the in-memory driver\<close>

subsection \<open>What \<open>pull\<close> computes\<close>

lemma partition_foldl:
  "foldl (partition_step now) (v, e) xs =
     (v @ filter (\<lambda>m. \<not> is_expired now m) xs, e @ filter (is_expired now) xs)"
  by (induction xs arbitrary: v e) (simp_all add: partition_step_def)

lemma pull_eq:
  "pull s q k now =
     (take (nat (case k of None \<Rightarrow> 1 | Some n \<Rightarrow> n))
        (filter (\<lambda>m. \<not> is_expired now m) (stored_of s q)),
      s\<lparr>queues := (queues s)(q \<mapsto>
          drop (nat (case k of None \<Rightarrow> 1 | Some n \<Rightarrow> n))
            (filter (\<lambda>m. \<not> is_expired now m) (stored_of s q)))\<rparr>)"
  by (simp add: pull_def partition_foldl Let_def)

lemma stored_of_upd:
  "stored_of (s\<lparr>queues := (queues s)(q \<mapsto> xs)\<rparr>) q' = (if q' = q then xs else stored_of s q')"
  by (simp add: stored_of_def)

text \<open>
  C1: on a queue that holds nothing deliverable, \<open>publish\<close> without a delay followed by
  \<open>pull\<close> with the default \<open>maxMessages\<close> returns exactly the published message, whose
  payload is the published payload, and a second \<open>pull\<close> returns the empty list: the
  message left the buffer at the first \<open>pull\<close>. (Without \<open>ttlSeconds\<close> the message
  never expires, so the fourth premise holds for every time of the first \<open>pull\<close>.)
\<close>

theorem publish_then_pull:
  assumes nodelay: "\<not> truthy_num (chain options delaySeconds)"
    and empty: "filter (\<lambda>m. \<not> is_expired t1 m) (stored_of s q) = []"
    and pub: "publish s q p options uuid1 uuid2 t0 = (message, s1)"
    and fresh: "\<not> is_expired t1 message"
    and p1: "pull s1 q None t1 = (pulled, s2)"
    and p2: "pull s2 q None t2 = (again, s3)"
  shows "pulled = [message] \<and> payload message = p \<and> again = []"
proof -
  from pub nodelay have s1: "s1 = push s q message" and pm: "payload message = p"
    by (auto simp: publish_def Let_def)
  have live: "filter (\<lambda>m. \<not> is_expired t1 m) (stored_of s1 q) = [message]"
    using empty fresh by (simp add: s1 push_def stored_of_upd)
  from p1 live have a: "pulled = [message]" and s2: "stored_of s2 q = []"
    by (auto simp: pull_eq stored_of_upd)
  from p2 s2 have "again = []" by (auto simp: pull_eq)
  with a pm show ?thesis by simp
qed

theorem publish_then_pull_witness:
  "(let (message, s1) = publish (new_driver :: nat driver) ''q'' 7 None ''id1'' ''rc1'' 0;
        (pulled, s2) = pull s1 ''q'' None 0;
        (again, s3) = pull s2 ''q'' None 0
    in pulled = [message] \<and> payload message = 7 \<and> again = [])"
proof -
  obtain message s1
    where pub: "publish (new_driver :: nat driver) ''q'' 7 None ''id1'' ''rc1'' 0 = (message, s1)"
    by (cases "publish (new_driver :: nat driver) ''q'' 7 None ''id1'' ''rc1'' 0")
  obtain pulled s2 where p1: "pull s1 ''q'' None 0 = (pulled, s2)"
    by (cases "pull s1 ''q'' None 0")
  obtain again s3 where p2: "pull s2 ''q'' None 0 = (again, s3)"
    by (cases "pull s2 ''q'' None 0")
  have a: "\<not> truthy_num (chain (None :: publish_options option) delaySeconds)"
    by (simp add: truthy_num_def chain_def)
  have b: "filter (\<lambda>m. \<not> is_expired 0 m) (stored_of (new_driver :: nat driver) ''q'') = []"
    by (simp add: stored_of_def new_driver_def)
  have c: "\<not> is_expired 0 message"
    using pub by (auto simp: publish_def Let_def is_expired_def truthy_num_def chain_def)
  from publish_then_pull [OF a b pub c p1 p2] show ?thesis
    by (simp add: pub p1 p2)
qed

text \<open>
  C3, as amended: \<open>pull\<close> with \<open>maxMessages = K\<close> returns at most \<open>K\<close> messages (none
  when \<open>K\<close> is negative); they are the first \<open>K\<close> unexpired messages of the buffer, in
  the buffer's order, and the unexpired rest stays; no returned message has an
  \<open>expiresAt\<close> at or before the time of the pull; and a message of the buffer is gone
  (neither returned nor kept) exactly when it has an \<open>expiresAt\<close> with
  \<open>expiresAt \<le> now\<close>.
\<close>

theorem pull_bounded_fifo_unexpired:
  assumes p: "pull s q karg now = (messages, s')"
    and k: "K = (case karg of None \<Rightarrow> 1 | Some n \<Rightarrow> n)"
  shows "int (length messages) \<le> max 0 K \<and>
         messages = take (nat K) (filter (\<lambda>m. \<not> is_expired now m) (stored_of s q)) \<and>
         stored_of s' q = drop (nat K) (filter (\<lambda>m. \<not> is_expired now m) (stored_of s q)) \<and>
         (\<forall>m \<in> set messages. \<forall>e. expiresAt m = Some e \<longrightarrow> now < e) \<and>
         (\<forall>m \<in> set (stored_of s q).
            (m \<notin> set messages \<and> m \<notin> set (stored_of s' q))
              = (\<exists>e. expiresAt m = Some e \<and> e \<le> now))"
proof -
  let ?live = "filter (\<lambda>m. \<not> is_expired now m) (stored_of s q)"
  from p k have m: "messages = take (nat K) ?live" and r: "stored_of s' q = drop (nat K) ?live"
    by (auto simp: pull_eq stored_of_upd)
  have len: "int (length messages) \<le> max 0 K" unfolding m by simp
  have un: "set messages \<union> set (stored_of s' q) = set ?live"
    unfolding m r by (metis append_take_drop_id set_append)
  have fresh: "\<forall>m \<in> set messages. \<forall>e. expiresAt m = Some e \<longrightarrow> now < e"
  proof (intro ballI allI impI)
    fix x e assume "x \<in> set messages" and e: "expiresAt x = Some e"
    then have "x \<in> set ?live" unfolding m by (meson in_set_takeD)
    then have "\<not> is_expired now x" by simp
    with e show "now < e" by (simp add: is_expired_def)
  qed
  have gone: "\<forall>m \<in> set (stored_of s q).
      (m \<notin> set messages \<and> m \<notin> set (stored_of s' q)) = (\<exists>e. expiresAt m = Some e \<and> e \<le> now)"
  proof
    fix x assume x: "x \<in> set (stored_of s q)"
    have "(x \<notin> set messages \<and> x \<notin> set (stored_of s' q)) = (x \<notin> set ?live)"
      using un by blast
    also have "\<dots> = is_expired now x" using x by simp
    also have "\<dots> = (\<exists>e. expiresAt x = Some e \<and> e \<le> now)"
      by (cases "expiresAt x") (simp_all add: is_expired_def)
    finally show "(x \<notin> set messages \<and> x \<notin> set (stored_of s' q))
        = (\<exists>e. expiresAt x = Some e \<and> e \<le> now)" .
  qed
  from len m r fresh gone show ?thesis by blast
qed

text \<open>
  The witness: two messages are published, the first with a time to live of one second;
  a pull of two at 999 ms returns both in publish order, and a pull of one returns the
  first.
\<close>

theorem pull_bounded_fifo_unexpired_witness:
  "map payload
     (fst (pull (snd (run (new_driver :: nat driver)
                  [(0, Publish ''q'' 1 (Some ttl1) ''a'' ''ra''), (0, Publish ''q'' 2 None ''b'' ''rb'')]))
             ''q'' (Some 2) 999)) = [1, 2]
   \<and> length
       (fst (pull (snd (run (new_driver :: nat driver)
                    [(0, Publish ''q'' 1 (Some ttl1) ''a'' ''ra''), (0, Publish ''q'' 2 None ''b'' ''rb'')]))
               ''q'' (Some 1) 999)) = 1"
proof -
  let ?s = "snd (run (new_driver :: nat driver)
                  [(0, Publish ''q'' 1 (Some ttl1) ''a'' ''ra''), (0, Publish ''q'' 2 None ''b'' ''rb'')])"
  have st: "map payload (filter (\<lambda>m. \<not> is_expired 999 m) (stored_of ?s ''q'')) = [1, 2]"
    by code_simp
  have p2: "pull ?s ''q'' (Some 2) 999 = (fst (pull ?s ''q'' (Some 2) 999), snd (pull ?s ''q'' (Some 2) 999))"
    by simp
  have p1: "pull ?s ''q'' (Some 1) 999 = (fst (pull ?s ''q'' (Some 1) 999), snd (pull ?s ''q'' (Some 1) 999))"
    by simp
  from pull_bounded_fifo_unexpired [OF p2, of 2]
  have "fst (pull ?s ''q'' (Some 2) 999)
          = take (nat 2) (filter (\<lambda>m. \<not> is_expired 999 m) (stored_of ?s ''q''))"
    by simp
  then have a: "map payload (fst (pull ?s ''q'' (Some 2) 999)) = [1, 2]"
    using st by (simp add: take_map [symmetric])
  from pull_bounded_fifo_unexpired [OF p1, of 1]
  have "fst (pull ?s ''q'' (Some 1) 999)
          = take (nat 1) (filter (\<lambda>m. \<not> is_expired 999 m) (stored_of ?s ''q''))"
    by simp
  then have "length (fst (pull ?s ''q'' (Some 1) 999))
          = min (length (map payload (filter (\<lambda>m. \<not> is_expired 999 m) (stored_of ?s ''q''))))  1"
    by simp
  then have b: "length (fst (pull ?s ''q'' (Some 1) 999)) = 1"
    unfolding st by simp
  from a b show ?thesis by simp
qed

text \<open>
  The claim as stated fails at the boundary: a message whose \<open>expiresAt\<close> is 1000 is gone
  in a pull at time 1000, when \<open>now > expiresAt\<close> does not hold.
\<close>

theorem expiry_boundary_counterexample:
  "(let (message, s1) = publish (new_driver :: nat driver) ''q'' 7 (Some ttl1) ''id1'' ''rc1'' 0;
        (pulled, s2) = pull s1 ''q'' (Some 1) 1000
    in expiresAt message = Some 1000 \<and> \<not> (1000 > the (expiresAt message)) \<and>
       pulled = [] \<and> stored_of s2 ''q'' = [])"
  by (simp add: publish_def pull_eq push_def stored_of_def new_driver_def truthy_num_def
      chain_def is_expired_def Let_def ttl1_def)

subsection \<open>The poller\<close>

lemma stored_of_set_phase [simp]: "stored_of (set_phase s i ph) q = stored_of s q"
  by (simp add: stored_of_def set_phase_def)

lemma length_subs_set_phase [simp]: "length (subs (set_phase s i ph)) = length (subs s)"
  by (simp add: set_phase_def)

lemma subs_set_phase [simp]:
  "i < length (subs s) \<Longrightarrow> subs (set_phase s i ph) ! i = (subs s ! i)\<lparr>phase := ph\<rparr>"
  by (simp add: set_phase_def)

lemma stored_of_finish [simp]: "stored_of (finish s i now) q = stored_of s q"
  by (simp add: finish_def Let_def setTimeout_def stored_of_def set_phase_def)

lemma length_subs_finish [simp]: "length (subs (finish s i now)) = length (subs s)"
  by (simp add: finish_def Let_def setTimeout_def set_phase_def)

lemma subs_finish [simp]:
  "i < length (subs s) \<Longrightarrow> subs (finish s i now) ! i = (subs s ! i)\<lparr>phase := Idle\<rparr>"
  by (simp add: finish_def Let_def setTimeout_def set_phase_def)

lemma stored_of_requeue [simp]:
  "stored_of (requeue s q m) q' = (if q' = q then m # stored_of s q else stored_of s q')"
  by (simp add: requeue_def stored_of_def)

lemma subs_requeue [simp]: "subs (requeue s q m) = subs s"
  by (simp add: requeue_def)











text \<open>
  Why the cycle has to run undisturbed: a client's \<open>pull\<close> between the two failures
  takes message 1, which was requeued by then, so the buffer holds message 2 alone at
  the end of the cycle and the next poll does not redeliver message 1.
\<close>

lemma interleaved_pull_takes_requeued:
  "map payload (fst (run (new_driver :: nat driver) interleaved_pull)) = [1, 2, 1]
   \<and> map payload (stored_of (snd (run (new_driver :: nat driver) interleaved_pull)) ''q'') = [2]
   \<and> map payload (fst (fire (snd (run (new_driver :: nat driver) interleaved_pull)) 0 1000)) = [2]"
  by code_simp

subsection \<open>Unsubscribing\<close>

text \<open>
  C6: with the subscriptions 0 and 1 both active on the queue \<open>q\<close> and the next poll of
  each pending (timers 0 and 1), \<open>unsubscribe\<close> of subscription 0 clears both timers:
  subscription 1 is still active, but its pending poll is gone, and it never polls
  again (a message published afterwards is not delivered when its timer would have
  fired).
\<close>

theorem unsubscribe_cancels_other_subscription:
  "timers (snd (run (new_driver :: nat driver) two_subs)) = [(0, 1000, PollCb 0), (1, 1000, PollCb 1)]
   \<and> timers (unsubscribe (snd (run (new_driver :: nat driver) two_subs)) 0) = []
   \<and> isActive (subs (unsubscribe (snd (run (new_driver :: nat driver) two_subs)) 0) ! 1)
   \<and> fst (run (unsubscribe (snd (run (new_driver :: nat driver) two_subs)) 0)
            [(500, Publish ''q'' 5 None ''a'' ''ra''), (1000, Fire 1), (5000, Fire 1)]) = []"
  by code_simp

text \<open>
  C7: subscription 0 is cancelled, then subscription 1 is made on the same queue and
  schedules its next poll (timer 1). A second \<open>unsubscribe\<close> of subscription 0 is not
  a no-op: it clears timer 1, the pending poll of subscription 1.
\<close>

theorem second_unsubscribe_not_noop:
  "\<not> isActive (subs (snd (run (new_driver :: nat driver) resubscribed)) ! 0)
   \<and> timers (snd (run (new_driver :: nat driver) resubscribed)) = [(1, 1020, PollCb 1)]
   \<and> timers (unsubscribe (snd (run (new_driver :: nat driver) resubscribed)) 0) = []
   \<and> isActive (subs (unsubscribe (snd (run (new_driver :: nat driver) resubscribed)) 0) ! 1)"
  by code_simp

text \<open>
  What does hold of a cancelled subscription: its \<open>poll\<close> returns at once without
  pulling, and the end of a poll in flight schedules nothing.
\<close>

lemma unsubscribe_inactive:
  "i < length (subs s) \<Longrightarrow> \<not> isActive (subs (unsubscribe s i) ! i)"
  by (simp add: unsubscribe_def Let_def clearTimeouts_def)

lemma inactive_poll_start: "\<not> isActive (subs s ! i) \<Longrightarrow> poll_start s i now = ([], s)"
  by (simp add: poll_start_def)

lemma inactive_finish:
  "\<not> isActive (subs s ! i) \<Longrightarrow>
   timers (finish s i now) = timers s \<and> subscriptions (finish s i now) = subscriptions s"
  by (simp add: finish_def Let_def set_phase_def)

text \<open>
  Whatever happens after \<open>unsubscribe\<close>, the subscription stays cancelled: a later call
  of its \<open>poll\<close> returns at once without pulling, and no timer for its \<open>poll\<close> is
  registered any more.
\<close>

lemma cancelled_set_phase:
  "cancelled i T s \<Longrightarrow> cancelled i T (set_phase s j ph)"
  by (cases "j < length (subs s)"; cases "i = j")
     (auto simp: cancelled_def set_phase_def)

lemma cancelled_queues_upd: "cancelled i T s \<Longrightarrow> cancelled i T (s\<lparr>queues := f\<rparr>)"
  by (simp add: cancelled_def)

lemma cancelled_subscriptions_upd: "cancelled i T s \<Longrightarrow> cancelled i T (s\<lparr>subscriptions := f\<rparr>)"
  by (simp add: cancelled_def)

lemma cancelled_loop_lag_upd: "cancelled i T s \<Longrightarrow> cancelled i T (s\<lparr>loop_lag := n\<rparr>)"
  by (simp add: cancelled_def)

lemma cancelled_timers_filter:
  "cancelled i T s \<Longrightarrow> cancelled i T (s\<lparr>timers := filter P (timers s)\<rparr>)"
  by (auto simp: cancelled_def)

lemma cancelled_setTimeout:
  "cancelled i T s \<Longrightarrow> cb \<noteq> PollCb i \<Longrightarrow> cancelled i T (snd (setTimeout s now delay cb))"
  by (auto simp: cancelled_def setTimeout_def)

lemma cancelled_publish: "cancelled i T s \<Longrightarrow> cancelled i T (snd (publish s q p options u1 u2 now))"
  by (auto simp: publish_def Let_def push_def intro!: cancelled_queues_upd cancelled_setTimeout)

lemma cancelled_pull: "cancelled i T s \<Longrightarrow> cancelled i T (snd (pull s q k now))"
  by (simp add: pull_eq cancelled_queues_upd)

lemma cancelled_ack: "cancelled i T s \<Longrightarrow> cancelled i T (ack s q r)"
  by (simp add: ack_def cancelled_queues_upd)

lemma cancelled_requeue: "cancelled i T s \<Longrightarrow> cancelled i T (requeue s q m)"
  by (simp add: requeue_def cancelled_queues_upd)

lemma cancelled_finish:
  assumes "cancelled i T s"
  shows "cancelled i T (finish s j now)"
proof (cases "j = i")
  case True
  with assms have "\<not> isActive (subs s ! j)" by (simp add: cancelled_def)
  then show ?thesis using assms by (simp add: finish_def Let_def cancelled_set_phase)
next
  case False
  then have "PollCb j \<noteq> (PollCb i :: 'a callback)" by simp
  then show ?thesis using assms
    by (auto simp: finish_def Let_def split_def
        intro!: cancelled_subscriptions_upd cancelled_setTimeout cancelled_set_phase)
qed

lemma cancelled_loop: "cancelled i T s \<Longrightarrow> cancelled i T (loop s j batch now)"
  by (auto simp: loop_def split: list.splits intro!: cancelled_finish cancelled_set_phase)

lemma cancelled_poll_start: "cancelled i T s \<Longrightarrow> cancelled i T (snd (poll_start s j now))"
  by (auto simp: poll_start_def Let_def split_def intro!: cancelled_set_phase cancelled_pull)

lemma cancelled_resume: "cancelled i T s \<Longrightarrow> cancelled i T (resume s j ok now)"
  by (auto simp: resume_def Let_def split: phase.splits
      intro!: cancelled_loop cancelled_set_phase cancelled_ack cancelled_requeue)

lemma cancelled_subscribe:
  assumes "cancelled i T s"
  shows "cancelled i T (snd (snd (subscribe s q options now)))"
proof -
  have "cancelled i T (s\<lparr>subs := subs s @ [sub]\<rparr>)" for sub
    using assms by (auto simp: cancelled_def nth_append)
  then show ?thesis
    by (simp add: subscribe_def Let_def split_def cancelled_poll_start)
qed

lemma cancelled_unsubscribe:
  assumes "cancelled i T s"
  shows "cancelled i T (unsubscribe s j)"
proof -
  have "cancelled i T (s\<lparr>subs := (subs s)[j := (subs s ! j)\<lparr>isActive := False\<rparr>]\<rparr>)"
    using assms
    by (cases "j < length (subs s)"; cases "i = j") (auto simp: cancelled_def)
  then have "cancelled i T (clearTimeouts (s\<lparr>subs := (subs s)[j := (subs s ! j)\<lparr>isActive := False\<rparr>]\<rparr>) ids)"
    for ids unfolding clearTimeouts_def by (rule cancelled_timers_filter)
  then show ?thesis
    unfolding unsubscribe_def Let_def by (intro cancelled_subscriptions_upd)
qed

lemma cancelled_fire:
  assumes "cancelled i T s"
  shows "cancelled i T (snd (fire s tid now))"
proof -
  have h0: "cancelled i T (s\<lparr>timers := filter (\<lambda>t. fst t \<noteq> tid) (timers s)\<rparr>)"
    using assms by (rule cancelled_timers_filter)
  show ?thesis
    using assms h0 cancelled_poll_start [OF h0]
    by (auto simp: fire_def Let_def push_def split: option.splits callback.splits
        intro!: cancelled_queues_upd)
qed

lemma cancelled_step:
  assumes "cancelled i T s"
  shows "cancelled i T (snd (step s e))"
proof -
  obtain now ev where e: "e = (now, ev)" by (cases e)
  show ?thesis
    using assms
    by (cases ev)
      (simp_all add: e cancelled_publish cancelled_pull cancelled_ack cancelled_subscribe
        cancelled_unsubscribe cancelled_fire cancelled_resume cancelled_loop_lag_upd)
qed

lemma cancelled_run: "cancelled i T s \<Longrightarrow> cancelled i T (snd (run s evs))"
proof (induction evs arbitrary: s)
  case Nil
  then show ?case by simp
next
  case (Cons e es)
  from Cons.IH [OF cancelled_step [OF Cons.prems, of e]]
  show ?case by (simp add: split_def Let_def)
qed

lemma unsubscribe_cancelled:
  "i < length (subs s) \<Longrightarrow> cancelled i (set (timers (unsubscribe s i))) (unsubscribe s i)"
  by (simp add: cancelled_def unsubscribe_def Let_def clearTimeouts_def)

lemma cancelled_never_polls:
  assumes "i < length (subs s)"
  shows "poll_start (snd (run (unsubscribe s i) evs)) i now = ([], snd (run (unsubscribe s i) evs))"
    and "\<forall>t \<in> set (timers (snd (run (unsubscribe s i) evs))).
           snd (snd t) = PollCb i \<longrightarrow> t \<in> set (timers (unsubscribe s i))"
proof -
  from cancelled_run [OF unsubscribe_cancelled [OF assms], of evs]
  have c: "cancelled i (set (timers (unsubscribe s i))) (snd (run (unsubscribe s i) evs))" .
  then show "poll_start (snd (run (unsubscribe s i) evs)) i now
      = ([], snd (run (unsubscribe s i) evs))"
    by (simp add: cancelled_def inactive_poll_start)
  from c show "\<forall>t \<in> set (timers (snd (run (unsubscribe s i) evs))).
           snd (snd t) = PollCb i \<longrightarrow> t \<in> set (timers (unsubscribe s i))"
    by (simp add: cancelled_def)
qed

text \<open>
  The cloud driver's \<open>unsubscribe\<close> touches the own subscription only: a second call
  changes nothing, and another subscription keeps its object and its pending timer.
\<close>

lemma sqs_unsubscribe_twice: "sqs_unsubscribe (sqs_unsubscribe s i) i = sqs_unsubscribe s i"
proof (cases "i < length (sqs_subs s)")
  case True
  then show ?thesis
    by (simp add: sqs_unsubscribe_def Let_def split: option.splits)
next
  case False
  then have "(sqs_subs s)[i := (sqs_subs s ! i)\<lparr>sqs_isActive := False\<rparr>] = sqs_subs s"
    by (intro list_update_beyond) simp
  then show ?thesis
    by (simp add: sqs_unsubscribe_def Let_def split: option.splits)
qed

lemma sqs_unsubscribe_frame:
  assumes "j \<noteq> i" and "sqs_timeoutId (sqs_subs s ! j) = Some t" and "t \<in> set (sqs_timers s)"
    and "sqs_timeoutId (sqs_subs s ! i) \<noteq> Some t"
  shows "sqs_subs (sqs_unsubscribe s i) ! j = sqs_subs s ! j"
    and "t \<in> set (sqs_timers (sqs_unsubscribe s i))"
  using assms by (auto simp: sqs_unsubscribe_def Let_def split: option.splits)

subsection \<open>Delayed messages\<close>

lemma without_id_subset: "without_id u ys \<Longrightarrow> set xs \<subseteq> set ys \<Longrightarrow> without_id u xs"
  by (auto simp: without_id_def)

lemma without_id_take: "without_id u xs \<Longrightarrow> without_id u (take n xs)"
  by (auto simp: without_id_def dest: in_set_takeD)

lemma without_id_drop: "without_id u xs \<Longrightarrow> without_id u (drop n xs)"
  by (auto simp: without_id_def dest: in_set_dropD)

lemma without_id_filter: "without_id u xs \<Longrightarrow> without_id u (filter P xs)"
  by (auto simp: without_id_def)

lemma hidden_stored: "hidden u D s \<Longrightarrow> without_id u (stored_of s q)"
  by (simp add: hidden_def)

lemma hidden_queues_upd:
  "hidden u D s \<Longrightarrow> without_id u xs \<Longrightarrow> hidden u D (s\<lparr>queues := (queues s)(q \<mapsto> xs)\<rparr>)"
  by (simp add: hidden_def stored_of_upd)

lemma hidden_subscriptions_upd:
  "hidden u D s \<Longrightarrow> hidden u D (s\<lparr>subscriptions := f\<rparr>)"
  by (simp add: hidden_def stored_of_def)

lemma hidden_set_phase:
  assumes "hidden u D s" "without_id u (phase_msgs ph)"
  shows "hidden u D (set_phase s i ph)"
proof -
  have "\<forall>sub \<in> set (subs (set_phase s i ph)). without_id u (phase_msgs (phase sub))"
  proof
    fix sub assume "sub \<in> set (subs (set_phase s i ph))"
    then have "sub \<in> insert ((subs s ! i)\<lparr>phase := ph\<rparr>) (set (subs s))"
      using set_update_subset_insert by (fastforce simp: set_phase_def)
    then show "without_id u (phase_msgs (phase sub))"
      using assms by (auto simp: hidden_def)
  qed
  with assms(1) show ?thesis
    by (simp add: hidden_def) (simp add: set_phase_def)
qed

lemma hidden_loop_lag_upd: "hidden u D s \<Longrightarrow> hidden u D (s\<lparr>loop_lag := n\<rparr>)"
  by (simp add: hidden_def stored_of_def)

lemma hidden_setTimeout:
  "hidden u D s \<Longrightarrow> carries u cb \<longrightarrow> D \<le> now - int (loop_lag s) + timer_delay delay \<Longrightarrow>
   hidden u D (snd (setTimeout s now delay cb))"
  by (auto simp: hidden_def setTimeout_def stored_of_def)

lemma hidden_timers_filter:
  "hidden u D s \<Longrightarrow> hidden u D (s\<lparr>timers := filter P (timers s)\<rparr>)"
  by (auto simp: hidden_def stored_of_def)

lemma hidden_clearTimeouts: "hidden u D s \<Longrightarrow> hidden u D (clearTimeouts s ids)"
  unfolding clearTimeouts_def by (rule hidden_timers_filter)

lemma hidden_push:
  "hidden u D s \<Longrightarrow> msg_id m \<noteq> u \<Longrightarrow> hidden u D (push s q m)"
  unfolding push_def
  by (rule hidden_queues_upd) (auto simp: hidden_def without_id_def)

lemma hidden_publish:
  assumes "hidden u D s" "uuid1 \<noteq> u"
  shows "hidden u D (snd (publish s q p options uuid1 uuid2 now))"
  using assms by (auto simp: publish_def Let_def intro!: hidden_push hidden_setTimeout)

lemma hidden_pull:
  assumes "hidden u D s"
  shows "hidden u D (snd (pull s q k now))" and "without_id u (fst (pull s q k now))"
  using assms
  by (auto simp: pull_eq intro!: hidden_queues_upd without_id_take without_id_drop
      without_id_filter hidden_stored)

lemma hidden_ack: "hidden u D s \<Longrightarrow> hidden u D (ack s q r)"
  unfolding ack_def by (auto intro!: hidden_queues_upd without_id_filter hidden_stored)

lemma hidden_requeue:
  "hidden u D s \<Longrightarrow> msg_id m \<noteq> u \<Longrightarrow> hidden u D (requeue s q m)"
  unfolding requeue_def
  by (rule hidden_queues_upd) (auto simp: hidden_def without_id_def)

lemma hidden_finish: "hidden u D s \<Longrightarrow> hidden u D (finish s i now)"
  by (auto simp: finish_def Let_def split_def
      intro!: hidden_subscriptions_upd hidden_setTimeout hidden_set_phase simp: without_id_def)

lemma hidden_loop:
  "hidden u D s \<Longrightarrow> without_id u batch \<Longrightarrow> hidden u D (loop s i batch now)"
  by (auto simp: loop_def split: list.splits intro!: hidden_finish hidden_set_phase)

lemma hidden_poll_start:
  assumes "hidden u D s"
  shows "hidden u D (snd (poll_start s i now))" and "without_id u (fst (poll_start s i now))"
  using assms hidden_pull [OF assms]
  by (auto simp: poll_start_def Let_def split_def intro!: hidden_set_phase simp: without_id_def)

lemma hidden_phase:
  "hidden u D s \<Longrightarrow> i < length (subs s) \<Longrightarrow> without_id u (phase_msgs (phase (subs s ! i)))"
  by (simp add: hidden_def)

lemma hidden_resume:
  assumes h: "hidden u D s" and i: "i < length (subs s)"
  shows "hidden u D (resume s i ok now)"
proof -
  note w = hidden_phase [OF h i]
  show ?thesis
  proof (cases "phase (subs s ! i)")
    case Idle
    then show ?thesis using h by (simp add: resume_def)
  next
    case (AwaitPull ms)
    then show ?thesis using h w by (simp add: resume_def hidden_loop)
  next
    case (AwaitHandler m rest)
    with w have m: "msg_id m \<noteq> u" and r: "without_id u rest" by (auto simp: without_id_def)
    show ?thesis using h m r AwaitHandler
      by (auto simp: resume_def Let_def intro!: hidden_loop hidden_set_phase hidden_ack hidden_requeue)
  next
    case (AwaitAck rest)
    then show ?thesis using h w by (simp add: resume_def hidden_loop)
  qed
qed

lemma hidden_subscribe:
  assumes "hidden u D s"
  shows "hidden u D (snd (snd (subscribe s q options now)))"
    and "without_id u (fst (snd (subscribe s q options now)))"
proof -
  let ?sub = "\<lparr>sub_queue = q,
                 maxMessages = (case chain options opt_maxMessages of None \<Rightarrow> 1 | Some n \<Rightarrow> n),
                 pollIntervalMs = (case chain options opt_pollIntervalMs of None \<Rightarrow> 1000 | Some n \<Rightarrow> n),
                 autoAck = (case chain options opt_autoAck of None \<Rightarrow> False | Some b \<Rightarrow> b),
                 isActive = True, phase = Idle\<rparr> :: 'a subscription"
  have h: "hidden u D (s\<lparr>subs := subs s @ [?sub]\<rparr>)"
    using assms by (auto simp: hidden_def stored_of_def without_id_def)
  show "hidden u D (snd (snd (subscribe s q options now)))"
    using hidden_poll_start(1) [OF h] by (simp add: subscribe_def Let_def split_def)
  show "without_id u (fst (snd (subscribe s q options now)))"
    using hidden_poll_start(2) [OF h] by (simp add: subscribe_def Let_def split_def)
qed

lemma hidden_unsubscribe:
  assumes "hidden u D s"
  shows "hidden u D (unsubscribe s i)"
proof -
  let ?xs = "(subs s)[i := (subs s ! i)\<lparr>isActive := False\<rparr>]"
  have "\<forall>sub \<in> set ?xs. without_id u (phase_msgs (phase sub))"
  proof (cases "i < length (subs s)")
    case True
    show ?thesis
    proof
      fix sub assume "sub \<in> set ?xs"
      then have "sub \<in> insert ((subs s ! i)\<lparr>isActive := False\<rparr>) (set (subs s))"
        using set_update_subset_insert by fastforce
      then show "without_id u (phase_msgs (phase sub))"
        using assms True by (auto simp: hidden_def)
    qed
  next
    case False
    then have "?xs = subs s" by (intro list_update_beyond) simp
    then show ?thesis using assms by (simp add: hidden_def)
  qed
  with assms have "hidden u D (s\<lparr>subs := ?xs\<rparr>)"
    by (simp add: hidden_def stored_of_def)
  then show ?thesis
    unfolding unsubscribe_def Let_def
    by (intro hidden_subscriptions_upd hidden_clearTimeouts)
qed

lemma hidden_fire:
  assumes h: "hidden u D s" and early: "now < D"
  shows "hidden u D (snd (fire s tid now))" and "without_id u (fst (fire s tid now))"
proof -
  show "hidden u D (snd (fire s tid now))"
  proof (cases "find (\<lambda>t. fst t = tid) (timers s)")
    case None
    then show ?thesis using h by (simp add: fire_def)
  next
    case (Some t)
    obtain tid' due cb where t: "t = (tid', due, cb)" by (cases t)
    from Some have mem: "t \<in> set (timers s)" by (auto simp: find_Some_iff in_set_conv_nth)
    let ?s0 = "s\<lparr>timers := filter (\<lambda>t. fst t \<noteq> tid) (timers s)\<rparr>"
    have h0: "hidden u D ?s0" using h by (rule hidden_timers_filter)
    show ?thesis
    proof (cases "now < due")
      case True
      then show ?thesis using h Some t by (simp add: fire_def)
    next
      case False
      show ?thesis
      proof (cases cb)
        case (PushCb q m)
        have "msg_id m \<noteq> u"
        proof
          assume "msg_id m = u"
          with mem t PushCb h have "D \<le> due" by (auto simp: hidden_def)
          with False early show False by simp
        qed
        then show ?thesis using Some t False PushCb h0
          by (simp add: fire_def hidden_push)
      next
        case (PollCb i)
        then show ?thesis using Some t False hidden_poll_start(1) [OF h0]
          by (simp add: fire_def)
      qed
    qed
  qed
  show "without_id u (fst (fire s tid now))"
  proof (cases "find (\<lambda>t. fst t = tid) (timers s)")
    case None
    then show ?thesis by (simp add: fire_def without_id_def)
  next
    case (Some t)
    obtain tid' due cb where t: "t = (tid', due, cb)" by (cases t)
    let ?s0 = "s\<lparr>timers := filter (\<lambda>t. fst t \<noteq> tid) (timers s)\<rparr>"
    have h0: "hidden u D ?s0" using h by (rule hidden_timers_filter)
    show ?thesis
      using Some t hidden_poll_start(2) [OF h0]
      by (cases cb) (auto simp: fire_def without_id_def)
  qed
qed

lemma hidden_step:
  assumes h: "hidden u D s" and early: "fst e < D" and other: "\<not> publishes u (snd e)"
  shows "hidden u D (snd (step s e)) \<and> without_id u (fst (step s e))"
proof -
  obtain now ev where e: "e = (now, ev)" by (cases e)
  show ?thesis
  proof (cases ev)
    case (Publish q p options uuid1 uuid2)
    then show ?thesis using h other e by (simp add: hidden_publish without_id_def)
  next
    case (Pull q k)
    then show ?thesis using hidden_pull [OF h] e by simp
  next
    case (Ack q r)
    then show ?thesis using h e by (simp add: hidden_ack without_id_def)
  next
    case (Subscribe q options)
    then show ?thesis using hidden_subscribe [OF h] e by simp
  next
    case (Unsubscribe i)
    then show ?thesis using h e by (simp add: hidden_unsubscribe without_id_def)
  next
    case (Fire tid)
    then show ?thesis using hidden_fire [OF h] early e by simp
  next
    case (Resume i ok)
    then show ?thesis using h e by (simp add: hidden_resume without_id_def)
  next
    case (Lag n)
    then show ?thesis using h e by (simp add: hidden_loop_lag_upd without_id_def)
  qed
qed

lemma hidden_run:
  assumes "hidden u D s" and "\<forall>e \<in> set evs. fst e < D \<and> \<not> publishes u (snd e)"
  shows "hidden u D (snd (run s evs)) \<and> without_id u (fst (run s evs))"
  using assms
proof (induction evs arbitrary: s)
  case Nil
  then show ?case by (simp add: without_id_def)
next
  case (Cons e es)
  from Cons.prems have st: "hidden u D (snd (step s e)) \<and> without_id u (fst (step s e))"
    by (intro hidden_step) auto
  from Cons.IH [of "snd (step s e)"] Cons.prems st
  have "hidden u D (snd (run (snd (step s e)) es)) \<and> without_id u (fst (run (snd (step s e)) es))"
    by auto
  with st show ?case by (auto simp: split_def Let_def without_id_def)
qed

text \<open>
  What does hold of a delayed message: \<open>publish\<close> with \<open>delaySeconds = N\<close> (not zero)
  leaves every queue's buffer as it was and registers one timer that will push the
  message, due when the runtime has counted \<open>timer_delay (N * 1000)\<close> milliseconds on its
  own clock. Whatever the clients, the timers and the pollers do before that moment
  (other publishes getting other identifiers from \<open>randomUUID()\<close>), the message is in no
  result of a \<open>pull\<close> and in no buffer: the insertion is scheduled, there is no
  visibility flag. The fourth premise says that the identifier is not in use before the
  publish; it holds in particular when no message has it.
\<close>

lemma delayed_message_hidden_until_due:
  assumes delay: "chain options delaySeconds = Some N" and nz: "N \<noteq> 0"
    and pub: "publish s q p options uuid1 uuid2 t0 = (message, s1)"
    and fresh: "hidden uuid1 (t0 - int (loop_lag s) + timer_delay (N * 1000)) s"
    and early: "\<forall>e \<in> set evs. fst e < t0 - int (loop_lag s) + timer_delay (N * 1000)
                  \<and> \<not> publishes uuid1 (snd e)"
  shows "queues s1 = queues s \<and>
         timers s1 = timers s @ [(next_timeout s, t0 - int (loop_lag s) + timer_delay (N * 1000),
                                  PushCb q message)] \<and>
         message \<notin> set (fst (run s1 evs)) \<and>
         (\<forall>q'. message \<notin> set (stored_of (snd (run s1 evs)) q'))"
proof -
  let ?D = "t0 - int (loop_lag s) + timer_delay (N * 1000)"
  from delay nz have tr: "truthy_num (chain options delaySeconds)"
    by (simp add: truthy_num_def)
  from pub tr delay have s1: "s1 = snd (setTimeout s t0 (N * 1000) (PushCb q message))"
    and mid: "msg_id message = uuid1"
    by (auto simp: publish_def Let_def)
  have q: "queues s1 = queues s"
    and t: "timers s1 = timers s @ [(next_timeout s, ?D, PushCb q message)]"
    by (simp_all add: s1 setTimeout_def)
  have "hidden uuid1 ?D s1"
    unfolding s1 using fresh by (rule hidden_setTimeout) simp
  from hidden_run [OF this early]
  have h: "hidden uuid1 ?D (snd (run s1 evs))"
    and w: "without_id uuid1 (fst (run s1 evs))" by simp_all
  from w mid have a: "message \<notin> set (fst (run s1 evs))" by (auto simp: without_id_def)
  from h mid have b: "\<forall>q'. message \<notin> set (stored_of (snd (run s1 evs)) q')"
    by (auto simp: hidden_def without_id_def)
  from q t a b show ?thesis by simp
qed

text \<open>
  A delay of one second on a fresh driver: with the runtime's clock in step the timer is
  due at 1000 and a pull at 999 returns nothing; with the runtime's clock 1 ms behind
  at the publish the timer is due at 999, and a pull at 999 returns the message.
\<close>

lemma delayed_push_follows_runtime_clock:
  "fst (run (new_driver :: nat driver)
         [(0, Publish ''del'' 7 (Some delay1) ''id1'' ''rc1''), (999, Fire 0),
          (999, Pull ''del'' None)]) = []
   \<and> map payload
       (fst (run (new_driver :: nat driver)
          [(0, Lag 1), (0, Publish ''del'' 7 (Some delay1) ''id1'' ''rc1''), (999, Fire 0),
           (999, Pull ''del'' None)])) = [7]"
  by code_simp

text \<open>
  C8: \<open>publish\<close> passes \<open>delaySeconds * 1000\<close> to \<open>setTimeout\<close> unchecked. With
  \<open>delaySeconds = 2147484\<close>, a delay the runtime's timer cannot take, the timer is due
  1 ms after the publish, and a pull at 1 ms returns the message, 2147484 seconds early.
\<close>

theorem long_delay_counterexample:
  "timers (snd (publish (new_driver :: nat driver) ''del'' 7 (Some long_delay) ''id1'' ''rc1'' 0))
     = [(0, 1, PushCb ''del''
                 (fst (publish (new_driver :: nat driver) ''del'' 7 (Some long_delay) ''id1'' ''rc1'' 0)))]
   \<and> fst (run (snd (publish (new_driver :: nat driver) ''del'' 7 (Some long_delay) ''id1'' ''rc1'' 0))
            [(1, Fire 0), (1, Pull ''del'' None)])
       = [fst (publish (new_driver :: nat driver) ''del'' 7 (Some long_delay) ''id1'' ''rc1'' 0)]"
  by code_simp

section \<open>Properties of the cloud queue driver\<close>

lemma ensureQueue_sent:
  "\<exists>cmds. sent (snd (ensureQueue client st q)) = sent st @ cmds
     \<and> set cmds \<subseteq> {GetQueueUrlCommand q, CreateQueueCommand q}"
  by (auto simp: ensureQueue_def send_def Let_def split: option.splits sum.splits)

lemma ensureQueue_creates:
  assumes "queueUrlCache st q = None"
    and "\<forall>res. client (sent st) (GetQueueUrlCommand q) = Inr res \<longrightarrow> \<not> truthy_str (res_QueueUrl res)"
  shows "sent (snd (ensureQueue client st q)) = sent st @ [GetQueueUrlCommand q, CreateQueueCommand q]"
  using assms
  by (auto simp: ensureQueue_def send_def Let_def split: option.splits sum.splits)

text \<open>
  C10: \<open>ack\<close> with the empty receipt does what \<open>ensureQueue\<close> does and nothing else: it
  ends in the state \<open>ensureQueue\<close> leaves, raising what \<open>ensureQueue\<close> raises and
  returning otherwise; the commands it sends are at most the lookup and the creation
  of the queue, never a delete; and when the queue is not cached and the lookup fails
  or gives no URL, it sends the lookup and then the command that creates the queue.
\<close>

theorem sqs_ack_empty_receipt:
  "snd (sqs_ack client st q []) = snd (ensureQueue client st q)
   \<and> fst (sqs_ack client st q [])
       = (case fst (ensureQueue client st q) of Inl err \<Rightarrow> Inl err | Inr url \<Rightarrow> Inr ())
   \<and> (\<exists>cmds. sent (snd (sqs_ack client st q [])) = sent st @ cmds
         \<and> set cmds \<subseteq> {GetQueueUrlCommand q, CreateQueueCommand q})
   \<and> (queueUrlCache st q = None
        \<and> (\<forall>res. client (sent st) (GetQueueUrlCommand q) = Inr res \<longrightarrow> \<not> truthy_str (res_QueueUrl res))
        \<longrightarrow> sent (snd (sqs_ack client st q []))
              = sent st @ [GetQueueUrlCommand q, CreateQueueCommand q])"
proof -
  have a: "snd (sqs_ack client st q []) = snd (ensureQueue client st q)"
    by (simp add: sqs_ack_def split: prod.splits sum.splits)
  have b: "fst (sqs_ack client st q [])
       = (case fst (ensureQueue client st q) of Inl err \<Rightarrow> Inl err | Inr url \<Rightarrow> Inr ())"
    by (simp add: sqs_ack_def split: prod.splits sum.splits)
  show ?thesis
    unfolding a using b ensureQueue_sent [of client st q] ensureQueue_creates [of st q client]
    by blast
qed

text \<open>
  The witness: on a driver with an empty cache and a service that does not know the
  queue, \<open>ack\<close> with the empty receipt returns normally after creating the queue.
\<close>

theorem sqs_ack_empty_receipt_witness:
  "fst (sqs_ack creating_client new_sqs ''q'' []) = Inr ()
   \<and> sent (snd (sqs_ack creating_client new_sqs ''q'' []))
       = [GetQueueUrlCommand ''q'', CreateQueueCommand ''q'']
   \<and> queueUrlCache (snd (sqs_ack creating_client new_sqs ''q'' [])) ''q'' = Some ''http://queue''"
proof -
  have c: "queueUrlCache new_sqs ''q'' = None" by (simp add: new_sqs_def)
  have g: "\<forall>res. creating_client (sent new_sqs) (GetQueueUrlCommand ''q'') = Inr res
             \<longrightarrow> \<not> truthy_str (res_QueueUrl res)"
    by (simp add: creating_client_def)
  have sn: "sent new_sqs = []" by (simp add: new_sqs_def)
  from sqs_ack_empty_receipt [of creating_client new_sqs "''q''"] c g
  have "sent (snd (sqs_ack creating_client new_sqs ''q'' []))
       = sent new_sqs @ [GetQueueUrlCommand ''q'', CreateQueueCommand ''q'']"
    by blast
  then have a: "sent (snd (sqs_ack creating_client new_sqs ''q'' []))
       = [GetQueueUrlCommand ''q'', CreateQueueCommand ''q'']"
    unfolding sn by simp
  have b: "fst (sqs_ack creating_client new_sqs ''q'' []) = Inr ()" by code_simp
  have d: "queueUrlCache (snd (sqs_ack creating_client new_sqs ''q'' [])) ''q'' = Some ''http://queue''"
    by code_simp
  from a b d show ?thesis by simp
qed

section \<open>Acknowledging on the three drivers\<close>

lemma ack_twice: "ack (ack s q r) q r = ack s q r"
  by (simp add: ack_def stored_of_def)

lemma stored_of_ack:
  "stored_of (ack s q r) q'
     = (if q' = q then filter (\<lambda>msg. receipt msg \<noteq> r) (stored_of s q) else stored_of s q')"
  by (simp add: ack_def stored_of_def)

lemma sqs_ack_error:
  "(fst (sqs_ack client st q r) = Inl err)
     = (fst (ensureQueue client st q) = Inl err
        \<or> (\<exists>url. fst (ensureQueue client st q) = Inr url \<and> r \<noteq> []
              \<and> client (sent (snd (ensureQueue client st q))) (DeleteMessageCommand url r) = Inl err))"
  by (auto simp: sqs_ack_def send_def split: prod.splits sum.splits)

lemma rabbit_ack_error:
  "(fst (rabbit_ack env rst q r) = Inl err)
     = (fst (getChannel env rst q) = Inl err
        \<or> (\<exists>channel. fst (getChannel env rst q) = Inr channel
              \<and> amqp_ack env channel (parseInt10 r) = Some err))"
  by (auto simp: rabbit_ack_def split: prod.splits sum.splits option.splits)

text \<open>
  C2, as amended: on the in-memory driver \<open>ack\<close> always returns, a second \<open>ack\<close> with
  the same receipt changes nothing, and a receipt that no stored message has leaves
  every buffer as it is (the buffer of the queue keeps exactly the messages with another
  receipt). On the cloud driver \<open>ack\<close> raises exactly the error that the queue
  resolution or, for a non-empty receipt, the service's answer to the delete command
  raises; on the broker driver exactly the error that getting the channel or the
  channel's \<open>ack\<close> raises. Neither checks the receipt itself.
\<close>

theorem ack_outcomes:
  "ack (ack s q r) q r = ack s q r
   \<and> stored_of (ack s q r) q'
       = (if q' = q then filter (\<lambda>msg. receipt msg \<noteq> r) (stored_of s q) else stored_of s q')
   \<and> ((\<forall>msg \<in> set (stored_of s q). receipt msg \<noteq> r) \<longrightarrow>
         stored_of (ack s q r) q = stored_of s q)
   \<and> (fst (sqs_ack client st q r) = Inl err)
       = (fst (ensureQueue client st q) = Inl err
          \<or> (\<exists>url. fst (ensureQueue client st q) = Inr url \<and> r \<noteq> []
                \<and> client (sent (snd (ensureQueue client st q))) (DeleteMessageCommand url r) = Inl err))
   \<and> (fst (rabbit_ack env rst q r) = Inl err)
       = (fst (getChannel env rst q) = Inl err
          \<or> (\<exists>channel. fst (getChannel env rst q) = Inr channel
                \<and> amqp_ack env channel (parseInt10 r) = Some err))"
proof -
  have unknown: "(\<forall>msg \<in> set (stored_of s q). receipt msg \<noteq> r) \<longrightarrow>
         stored_of (ack s q r) q = stored_of s q"
    by (simp add: stored_of_ack)
  show ?thesis
    using ack_twice [of s q r] stored_of_ack [of s q r q'] unknown
      sqs_ack_error [of client st q r err] rabbit_ack_error [of env rst q r err]
    by blast
qed

text \<open>
  The witness: with one message stored, an \<open>ack\<close> with a receipt that no message has
  leaves it there; two \<open>ack\<close>s with its receipt leave what one leaves, the empty buffer;
  and on a cloud service that accepts the delete command, \<open>ack\<close> returns.
\<close>

theorem ack_outcomes_witness:
  "stored_of (ack (snd (publish (new_driver :: nat driver) ''q'' 7 None ''id1'' ''rc1'' 0))
               ''q'' ''unknown'') ''q''
     = [fst (publish (new_driver :: nat driver) ''q'' 7 None ''id1'' ''rc1'' 0)]
   \<and> stored_of (ack (ack (snd (publish (new_driver :: nat driver) ''q'' 7 None ''id1'' ''rc1'' 0))
                    ''q'' ''rc1'') ''q'' ''rc1'') ''q''
     = []
   \<and> fst (sqs_ack creating_client new_sqs ''q'' ''unknown'') = Inr ()"
proof -
  let ?pub = "publish (new_driver :: nat driver) ''q'' 7 None ''id1'' ''rc1'' 0"
  have st: "stored_of (snd ?pub) ''q'' = [fst ?pub]" by code_simp
  have rc: "receipt (fst ?pub) = ''rc1''" by code_simp
  have pre: "\<forall>msg \<in> set (stored_of (snd ?pub) ''q''). receipt msg \<noteq> ''unknown''"
    unfolding st by (simp add: rc)
  note T = ack_outcomes [where s = "snd ?pub" and q = "''q''" and r = "''unknown''"]
  from T [THEN conjunct2, THEN conjunct2, THEN conjunct1, THEN mp, OF pre]
  have a: "stored_of (ack (snd ?pub) ''q'' ''unknown'') ''q'' = [fst ?pub]"
    unfolding st .
  have b: "stored_of (ack (ack (snd ?pub) ''q'' ''rc1'') ''q'' ''rc1'') ''q'' = []"
    by code_simp
  have c: "fst (sqs_ack creating_client new_sqs ''q'' ''unknown'') = Inr ()" by code_simp
  from a b c show ?thesis by simp
qed

text \<open>
  The claim as stated fails on the cloud driver: the service rejects the delete command
  for a receipt it does not know, and \<open>ack\<close> raises that error.
\<close>

theorem sqs_ack_raises_counterexample:
  "fst (sqs_ack rejecting_client new_sqs ''q'' ''stale-receipt'')
     = Inl (Error ''ReceiptHandleIsInvalid'')"
  by code_simp

section \<open>Properties of the facade\<close>

text \<open>
  C5: for a provider name that is not a key of the registry, each of the four facade
  operations throws a \<open>BadRequestException\<close> and calls no driver; for a name the
  registry maps to a driver, each operation is exactly one call of that driver's method
  of the same name with the arguments as given.
\<close>

theorem facade_dispatch:
  "(provider \<notin> set (map fst drivers) \<longrightarrow>
      (\<exists>msg. service_publish drivers provider q p options = Inl (BadRequestException msg)
           \<and> service_pull drivers provider q k = Inl (BadRequestException msg)
           \<and> service_ack drivers provider q r = Inl (BadRequestException msg)
           \<and> service_subscribe drivers provider q h sopts = Inl (BadRequestException msg)))
   \<and> (\<forall>driver. map_of drivers provider = Some driver \<longrightarrow>
         service_publish drivers provider q p options = Inr (driver, PublishCall q p options)
       \<and> service_pull drivers provider q k = Inr (driver, PullCall q k)
       \<and> service_ack drivers provider q r = Inr (driver, AckCall q r)
       \<and> service_subscribe drivers provider q h sopts = Inr (driver, SubscribeCall q h sopts))"
proof (intro conjI impI allI)
  assume "provider \<notin> set (map fst drivers)"
  then have "map_of drivers provider = None" by (simp add: map_of_eq_None_iff)
  then show "\<exists>msg. service_publish drivers provider q p options = Inl (BadRequestException msg)
           \<and> service_pull drivers provider q k = Inl (BadRequestException msg)
           \<and> service_ack drivers provider q r = Inl (BadRequestException msg)
           \<and> service_subscribe drivers provider q h sopts = Inl (BadRequestException msg)"
    by (simp add: service_publish_def service_pull_def service_ack_def service_subscribe_def
        getDriver_def)
qed (simp_all add: service_publish_def service_pull_def service_ack_def service_subscribe_def
        getDriver_def)

text \<open>
  The witness: on the registry of the module, the name \<open>bad\<close> is refused with the
  message that lists the providers, and a call for \<open>memory\<close> goes to the driver
  registered under that name.
\<close>

theorem facade_dispatch_witness:
  "(service_publish registry ''bad'' ''q'' (7 :: nat) None :: error + nat \<times> (nat, unit) driver_call)
     = Inl (BadRequestException
              ''Invalid queue provider: bad. Available providers: sqs, rabbitmq, memory'')
   \<and> (service_ack registry ''memory'' ''q'' ''rc1'' :: error + nat \<times> (nat, unit) driver_call)
       = Inr (2, AckCall ''q'' ''rc1'')
   \<and> (service_pull registry ''memory'' ''q'' (Some 3) :: error + nat \<times> (nat, unit) driver_call)
       = Inr (2, PullCall ''q'' (Some 3))"
proof -
  have m: "map_of registry ''memory'' = Some 2" by (simp add: registry_def)
  have a: "(service_publish registry ''bad'' ''q'' (7 :: nat) None
              :: error + nat \<times> (nat, unit) driver_call)
     = Inl (BadRequestException
              ''Invalid queue provider: bad. Available providers: sqs, rabbitmq, memory'')"
    by (simp add: service_publish_def getDriver_def registry_def)
  from facade_dispatch [where drivers = registry and provider = "''memory''" and q = "''q''"
      and r = "''rc1''" and k = "Some 3" and p = "7 :: nat" and options = None and h = "()"
      and sopts = None] m
  have "(service_ack registry ''memory'' ''q'' ''rc1'' :: error + nat \<times> (nat, unit) driver_call)
       = Inr (2, AckCall ''q'' ''rc1'')
     \<and> (service_pull registry ''memory'' ''q'' (Some 3) :: error + nat \<times> (nat, unit) driver_call)
       = Inr (2, PullCall ''q'' (Some 3))"
    by blast
  with a show ?thesis by simp
qed

section \<open>Caller-supplied metadata on the three drivers\<close>

lemma memory_publish_meta:
  assumes "publish s q p options uuid1 uuid2 t0 = (message, s1)"
  shows "attributes message = chain options opt_attributes"
    and "correlationId message = chain options opt_correlationId"
    and "\<not> truthy_num (chain options delaySeconds) \<Longrightarrow> stored_of s1 q = stored_of s q @ [message]"
  using assms by (auto simp: publish_def Let_def push_def stored_of_upd split: if_splits)

lemma pull_returns_stored: "set (fst (pull s q k now)) \<subseteq> set (stored_of s q)"
  by (auto simp: pull_eq dest: in_set_takeD)

lemma sqs_publish_meta:
  "sqs_publish client stringify st q p options now = (Inr message, st') \<Longrightarrow>
   attributes message = chain options opt_attributes \<and>
   correlationId message = chain options opt_correlationId"
  by (auto simp: sqs_publish_def split: prod.splits sum.splits)

lemma rabbit_publish_meta:
  "rabbit_publish env stringify rst q p options generated now = (Inr message, rst') \<Longrightarrow>
   attributes message = chain options opt_attributes \<and>
   correlationId message = Some (if truthy_str (chain options opt_correlationId)
                                 then the (chain options opt_correlationId) else generated)"
  by (auto simp: rabbit_publish_def Let_def split: prod.splits sum.splits if_splits)

text \<open>What \<open>toMessageAttributes\<close> builds from an object without the key \<open>correlationId\<close>.\<close>

lemma update_fresh: "k \<notin> fst ` set al \<Longrightarrow> AList.update k v al = al @ [(k, v)]"
  by (induction al) auto

lemma foldl_update_distinct:
  "distinct (map fst es) \<Longrightarrow> fst ` set es \<inter> fst ` set acc = {} \<Longrightarrow>
   foldl (\<lambda>acc (key, v). AList.update key (f v) acc) acc es = acc @ map (\<lambda>(key, v). (key, f v)) es"
proof (induction es arbitrary: acc)
  case Nil
  then show ?case by simp
next
  case (Cons e es)
  obtain k v where e: "e = (k, v)" by (cases e)
  from Cons.prems have k: "k \<notin> fst ` set acc" by (auto simp: e)
  have d: "distinct (map fst es)" using Cons.prems by simp
  have i: "fst ` set es \<inter> fst ` set (acc @ [(k, f v)]) = {}"
    using Cons.prems by (auto simp: e)
  show ?case
    using Cons.IH [OF d i] by (simp add: e update_fresh [OF k])
qed

lemma toMessageAttributes_eq:
  assumes "distinct (map fst (case chain options opt_attributes of None \<Rightarrow> [] | Some a \<Rightarrow> a))"
    and "''correlationId''
           \<notin> fst ` set (case chain options opt_attributes of None \<Rightarrow> [] | Some a \<Rightarrow> a)"
  shows "toMessageAttributes options =
     map (\<lambda>(key, v). (key, \<lparr>DataType = ''String'', StringValue = Some v\<rparr>))
       (case chain options opt_attributes of None \<Rightarrow> [] | Some a \<Rightarrow> a)
     @ (if truthy_str (chain options opt_correlationId)
        then [(''correlationId'',
               \<lparr>DataType = ''String'', StringValue = chain options opt_correlationId\<rparr>)]
        else [])"
proof -
  let ?es = "case chain options opt_attributes of None \<Rightarrow> [] | Some a \<Rightarrow> a"
  let ?f = "\<lambda>v. \<lparr>DataType = ''String'', StringValue = Some v\<rparr>"
  have base: "(case (case chain options opt_attributes of None \<Rightarrow> None
                   | Some entries \<Rightarrow>
                       Some (foldl (\<lambda>acc (key, v). AList.update key (?f v) acc) [] entries))
               of None \<Rightarrow> [] | Some a \<Rightarrow> a) = map (\<lambda>(key, v). (key, ?f v)) ?es"
    using assms(1) foldl_update_distinct [of _ "[]" ?f]
    by (cases "chain options opt_attributes") simp_all
  have nk: "''correlationId'' \<notin> fst ` set (map (\<lambda>(key, v). (key, ?f v)) ?es)"
    using assms(2) by (auto simp: image_iff split: prod.splits)
  show ?thesis
    unfolding toMessageAttributes_def Let_def base
    using update_fresh [OF nk] by simp
qed

text \<open>
  The reducers of the two \<open>pull\<close>s on an object's entries (distinct keys): every entry
  that passes the test becomes a property, except one with the key \<open>__proto__\<close>.
\<close>

lemma foldl_assign_distinct:
  "distinct (map fst es) \<Longrightarrow> fst ` set es \<inter> fst ` set acc = {} \<Longrightarrow>
   foldl (\<lambda>acc (key, v). if P key v then assign acc key (g v) else acc) acc es
     = acc @ map (\<lambda>(key, v). (key, g v))
               (filter (\<lambda>(key, v). P key v \<and> key \<noteq> ''__proto__'') es)"
proof (induction es arbitrary: acc)
  case Nil
  then show ?case by simp
next
  case (Cons e es)
  obtain k v where e: "e = (k, v)" by (cases e)
  from Cons.prems have k: "k \<notin> fst ` set acc" by (auto simp: e)
  have d: "distinct (map fst es)" using Cons.prems by simp
  show ?case
  proof (cases "P k v \<and> k \<noteq> ''__proto__''")
    case True
    have i: "fst ` set es \<inter> fst ` set (acc @ [(k, g v)]) = {}"
      using Cons.prems by (auto simp: e)
    show ?thesis
      using Cons.IH [OF d i] True by (simp add: e assign_def update_fresh [OF k])
  next
    case False
    have i: "fst ` set es \<inter> fst ` set acc = {}" using Cons.prems by (auto simp: e)
    show ?thesis
      using Cons.IH [OF d i] False by (auto simp: e assign_def)
  qed
qed

lemma sqs_reduce:
  assumes "distinct (map fst es)"
  shows "foldl (\<lambda>acc (key, v).
            if key \<noteq> ''correlationId'' \<and> truthy_str (StringValue v)
            then assign acc key (the (StringValue v)) else acc) [] es
         = map (\<lambda>(key, v). (key, the (StringValue v)))
             (filter (\<lambda>(key, v). key \<noteq> ''correlationId'' \<and> truthy_str (StringValue v)
                        \<and> key \<noteq> ''__proto__'') es)"
  using foldl_assign_distinct
    [of es "[]" "\<lambda>key v. key \<noteq> ''correlationId'' \<and> truthy_str (StringValue v)"
      "\<lambda>v. the (StringValue v)"] assms
  by simp

lemma rabbit_reduce:
  assumes "distinct (map fst hs)"
  shows "foldl (\<lambda>acc (key, v).
            case v of
              HString str \<Rightarrow> (if key \<noteq> ''correlationId'' then assign acc key str else acc)
            | HOther \<Rightarrow> acc) [] hs
         = map (\<lambda>(key, v). (key, case v of HString str \<Rightarrow> str | HOther \<Rightarrow> []))
             (filter (\<lambda>(key, v). key \<noteq> ''correlationId'' \<and> v \<noteq> HOther
                        \<and> key \<noteq> ''__proto__'') hs)"
proof -
  have "(\<lambda>acc (key, v).
            case v of
              HString str \<Rightarrow> (if key \<noteq> ''correlationId'' then assign acc key str else acc)
            | HOther \<Rightarrow> acc)
        = (\<lambda>acc (key, v). if key \<noteq> ''correlationId'' \<and> v \<noteq> HOther
             then assign acc key (case v of HString str \<Rightarrow> str | HOther \<Rightarrow> []) else acc)"
    by (auto simp: fun_eq_iff split: header_value.splits)
  then show ?thesis
    using foldl_assign_distinct
      [of hs "[]" "\<lambda>key v. key \<noteq> ''correlationId'' \<and> v \<noteq> HOther"
        "\<lambda>v. case v of HString str \<Rightarrow> str | HOther \<Rightarrow> []"] assms
    by simp
qed

text \<open>What the cloud driver's \<open>pull\<close> reads back from the attributes \<open>publish\<close> built.\<close>

lemma decode_encode:
  "''correlationId'' \<notin> fst ` set es \<Longrightarrow>
   map (\<lambda>(key, v). (key, the (StringValue v)))
     (filter (\<lambda>(key, v). key \<noteq> ''correlationId'' \<and> truthy_str (StringValue v)
                \<and> key \<noteq> ''__proto__'')
        (map (\<lambda>(key, v). (key, \<lparr>DataType = ''String'', StringValue = Some v\<rparr>)) es))
   = filter (\<lambda>(key, v). key \<noteq> ''__proto__'' \<and> v \<noteq> []) es"
  by (induction es) (auto simp: truthy_str_def)

lemma lookup_encode:
  "''correlationId'' \<notin> fst ` set es \<Longrightarrow>
   map_of (map (\<lambda>(key, v). (key, \<lparr>DataType = ''String'', StringValue = Some v\<rparr>)) es)
     ''correlationId'' = None"
  by (induction es) auto

lemma distinct_snoc_key:
  "distinct (map fst al) \<Longrightarrow> k \<notin> fst ` set al \<Longrightarrow> distinct (map fst (al @ [(k, v)]))"
  by auto

lemma keys_encode: "map fst (map (\<lambda>(key, v). (key, f v)) es) = map fst es"
  by (induction es) auto

lemma distinct_encode:
  "distinct (map fst (map (\<lambda>(key, v). (key, f v)) es)) = distinct (map fst es)"
  by (simp only: keys_encode)

lemma sqs_transport:
  assumes d: "distinct (map fst (case chain options opt_attributes of None \<Rightarrow> [] | Some a \<Rightarrow> a))"
    and n: "''correlationId''
              \<notin> fst ` set (case chain options opt_attributes of None \<Rightarrow> [] | Some a \<Rightarrow> a)"
    and raw: "MessageAttributes raw = Some (toMessageAttributes options)"
  shows "attributes (sqs_to_message parse to_number now raw)
           = Some (filter (\<lambda>(key, v). key \<noteq> ''__proto__'' \<and> v \<noteq> [])
                     (case chain options opt_attributes of None \<Rightarrow> [] | Some a \<Rightarrow> a))"
    and "correlationId (sqs_to_message parse to_number now raw)
           = (if truthy_str (chain options opt_correlationId)
              then chain options opt_correlationId else None)"
proof -
  let ?es = "case chain options opt_attributes of None \<Rightarrow> [] | Some a \<Rightarrow> a"
  let ?enc = "map (\<lambda>(key, v). (key, \<lparr>DataType = ''String'', StringValue = Some v\<rparr>)) ?es"
  let ?cid = "(''correlationId'',
               \<lparr>DataType = ''String'', StringValue = chain options opt_correlationId\<rparr>)"
  note eq = toMessageAttributes_eq [OF d n]
  note f1 = decode_encode [OF n]
  note m1 = lookup_encode [OF n]
  have de: "distinct (map fst ?enc)" using d by (simp only: distinct_encode)
  have ks: "fst ` set ?enc = fst ` set ?es"
    by (simp only: set_map [symmetric] keys_encode)
  have nk: "''correlationId'' \<notin> fst ` set ?enc"
    unfolding ks by (rule n)
  have dc: "distinct (map fst (?enc @ [?cid]))" by (rule distinct_snoc_key [OF de nk])
  show "attributes (sqs_to_message parse to_number now raw)
          = Some (filter (\<lambda>(key, v). key \<noteq> ''__proto__'' \<and> v \<noteq> []) ?es)"
  proof (cases "truthy_str (chain options opt_correlationId)")
    case True
    have "attributes (sqs_to_message parse to_number now raw)
            = Some (foldl (\<lambda>acc (key, v).
                      if key \<noteq> ''correlationId'' \<and> truthy_str (StringValue v)
                      then assign acc key (the (StringValue v)) else acc) [] (?enc @ [?cid]))"
      using True by (simp add: sqs_to_message_def Let_def raw eq)
    also have "\<dots> = Some (filter (\<lambda>(key, v). key \<noteq> ''__proto__'' \<and> v \<noteq> []) ?es)"
      unfolding sqs_reduce [OF dc] using f1 by simp
    finally show ?thesis .
  next
    case False
    have "attributes (sqs_to_message parse to_number now raw)
            = Some (foldl (\<lambda>acc (key, v).
                      if key \<noteq> ''correlationId'' \<and> truthy_str (StringValue v)
                      then assign acc key (the (StringValue v)) else acc) [] ?enc)"
      using False by (simp add: sqs_to_message_def Let_def raw eq)
    also have "\<dots> = Some (filter (\<lambda>(key, v). key \<noteq> ''__proto__'' \<and> v \<noteq> []) ?es)"
      unfolding sqs_reduce [OF de] using f1 by simp
    finally show ?thesis .
  qed
  show "correlationId (sqs_to_message parse to_number now raw)
           = (if truthy_str (chain options opt_correlationId)
              then chain options opt_correlationId else None)"
    using m1 by (simp add: sqs_to_message_def Let_def raw eq map_add_def)
qed

text \<open>What the broker driver's \<open>pull\<close> reads back from the headers \<open>publish\<close> built.\<close>

lemma decode_plain_headers:
  "map (\<lambda>(key, v). (key, case v of HString str \<Rightarrow> str | HOther \<Rightarrow> []))
     (filter (\<lambda>(key, v). key \<noteq> ''correlationId'' \<and> v \<noteq> HOther \<and> key \<noteq> ''__proto__'')
        (map (\<lambda>(key, v). (key, HString v)) es))
   = filter (\<lambda>(key, v). key \<noteq> ''correlationId'' \<and> key \<noteq> ''__proto__'') es"
  by (induction es) auto

lemma decode_headers:
  "map (\<lambda>(key, v). (key, case v of HString str \<Rightarrow> str | HOther \<Rightarrow> []))
     (filter (\<lambda>(key, v). key \<noteq> ''correlationId'' \<and> v \<noteq> HOther \<and> key \<noteq> ''__proto__'')
        (AList.update ''correlationId'' (HString c) (map (\<lambda>(key, v). (key, HString v)) es)))
   = filter (\<lambda>(key, v). key \<noteq> ''correlationId'' \<and> key \<noteq> ''__proto__'') es"
  by (induction es) (auto simp: decode_plain_headers simp del: map_map)

lemma rabbit_transport:
  assumes "properties msg = publishOptions options generated"
    and d: "distinct (map fst (case chain options opt_attributes of None \<Rightarrow> [] | Some a \<Rightarrow> a))"
  shows "attributes (rabbit_to_message parse tag_text now fallback msg)
           = Some (filter (\<lambda>(key, v). key \<noteq> ''correlationId'' \<and> key \<noteq> ''__proto__'')
                     (case chain options opt_attributes of None \<Rightarrow> [] | Some a \<Rightarrow> a))"
    and "correlationId (rabbit_to_message parse tag_text now fallback msg)
           = Some (if truthy_str (chain options opt_correlationId)
                   then the (chain options opt_correlationId) else generated)"
proof -
  let ?es = "case chain options opt_attributes of None \<Rightarrow> [] | Some a \<Rightarrow> a"
  have dh: "distinct (map fst (AList.update ''correlationId'' (HString c)
                                 (map (\<lambda>(key, v). (key, HString v)) ?es)))" for c
    using d by (simp only: distinct_update distinct_encode)
  show "attributes (rabbit_to_message parse tag_text now fallback msg)
           = Some (filter (\<lambda>(key, v). key \<noteq> ''correlationId'' \<and> key \<noteq> ''__proto__'') ?es)"
    using assms(1)
    by (simp add: rabbit_to_message_def publishOptions_def Let_def rabbit_reduce [OF dh]
        decode_headers del: map_map)
  show "correlationId (rabbit_to_message parse tag_text now fallback msg)
           = Some (if truthy_str (chain options opt_correlationId)
                   then the (chain options opt_correlationId) else generated)"
    using assms(1)
    by (cases "chain options opt_correlationId")
      (auto simp: rabbit_to_message_def publishOptions_def Let_def truthy_str_def)
qed

text \<open>
  An attribute with the key \<open>__proto__\<close> (an own property of the caller's object, as
  \<open>JSON.parse\<close> makes it) is in the message \<open>publish\<close> returns and is sent, but it is
  not in the message the cloud driver or the broker driver pulls.
\<close>

lemma reserved_key_dropped:
  "toMessageAttributes (Some proto1)
     = [(''__proto__'', \<lparr>DataType = ''String'', StringValue = Some ''x''\<rparr>),
        (''k'', \<lparr>DataType = ''String'', StringValue = Some ''v''\<rparr>)]
   \<and> attributes (sqs_to_message (\<lambda>b. None :: nat option) (\<lambda>t. 0) 0
        \<lparr>MessageId = Some ''m1'', ReceiptHandle = Some ''r1'', Body = Some ''7'',
          SentTimestamp = None, MessageAttributes = Some (toMessageAttributes (Some proto1))\<rparr>)
     = Some [(''k'', ''v'')]
   \<and> attributes (rabbit_to_message (\<lambda>b. None :: nat option) (\<lambda>n. ''42'') 0 ''fb''
        \<lparr>content = ''7'', properties = publishOptions (Some proto1) ''1700000000000-k3j2h1'',
          deliveryTag = 42\<rparr>)
     = Some [(''k'', ''v'')]"
  by code_simp

text \<open>
  C9, as amended. The message \<open>publish\<close> returns carries the supplied attributes as they
  are on all three drivers, and the supplied correlation identifier as it is on the
  in-memory and the cloud driver (none when none is supplied); on the broker driver it
  carries the supplied identifier when that is a non-empty string and the generated
  message identifier otherwise. The in-memory \<open>publish\<close> without a delay stores the very
  message it returns and \<open>pull\<close> returns stored messages as they are. The attributes
  are an object, so the keys of its entries are distinct. A message the cloud driver
  pulls with the metadata \<open>publish\<close> sent (from attributes \<open>entries\<close> without the key
  \<open>correlationId\<close>) carries the attributes that have a non-empty value and a key other
  than \<open>__proto__\<close> (the empty object when none were supplied), and the correlation
  identifier when it was supplied and not empty. A message the broker driver pulls with
  the properties \<open>publish\<close> sent carries the attributes with a key other than
  \<open>correlationId\<close> and \<open>__proto__\<close> (the empty object when none were supplied) and the
  correlation identifier \<open>publish\<close> returned.
\<close>

theorem metadata_round_trip:
  "(publish s q p options uuid1 uuid2 t0 = (message, s1) \<longrightarrow>
      attributes message = chain options opt_attributes \<and>
      correlationId message = chain options opt_correlationId \<and>
      (\<not> truthy_num (chain options delaySeconds) \<longrightarrow> stored_of s1 q = stored_of s q @ [message]))
   \<and> set (fst (pull s q k now)) \<subseteq> set (stored_of s q)
   \<and> (sqs_publish client stringify st q p2 options now = (Inr sqs_message, st') \<longrightarrow>
        attributes sqs_message = chain options opt_attributes \<and>
        correlationId sqs_message = chain options opt_correlationId)
   \<and> (entries = (case chain options opt_attributes of None \<Rightarrow> [] | Some a \<Rightarrow> a) \<and>
       distinct (map fst entries) \<and> ''correlationId'' \<notin> fst ` set entries \<and>
       MessageAttributes raw = Some (toMessageAttributes options) \<longrightarrow>
        attributes (sqs_to_message parse to_number now raw)
          = Some (filter (\<lambda>(key, v). key \<noteq> ''__proto__'' \<and> v \<noteq> []) entries) \<and>
        correlationId (sqs_to_message parse to_number now raw)
          = (if truthy_str (chain options opt_correlationId)
             then chain options opt_correlationId else None))
   \<and> (rabbit_publish env stringify3 rst q p3 options generated now = (Inr rabbit_message, rst') \<longrightarrow>
        attributes rabbit_message = chain options opt_attributes \<and>
        correlationId rabbit_message
          = Some (if truthy_str (chain options opt_correlationId)
                  then the (chain options opt_correlationId) else generated))
   \<and> (properties msg = publishOptions options generated \<and>
       distinct (map fst (case chain options opt_attributes of None \<Rightarrow> [] | Some a \<Rightarrow> a)) \<longrightarrow>
        attributes (rabbit_to_message parse3 tag_text now fallback msg)
          = Some (filter (\<lambda>(key, v). key \<noteq> ''correlationId'' \<and> key \<noteq> ''__proto__'')
                    (case chain options opt_attributes of None \<Rightarrow> [] | Some a \<Rightarrow> a)) \<and>
        correlationId (rabbit_to_message parse3 tag_text now fallback msg)
          = Some (if truthy_str (chain options opt_correlationId)
                  then the (chain options opt_correlationId) else generated))"
proof (intro conjI impI)
  assume "publish s q p options uuid1 uuid2 t0 = (message, s1)"
  note m = memory_publish_meta [OF this]
  show "attributes message = chain options opt_attributes" by (rule m(1))
  show "correlationId message = chain options opt_correlationId" by (rule m(2))
  show "stored_of s1 q = stored_of s q @ [message]"
    if "\<not> truthy_num (chain options delaySeconds)" using that by (rule m(3))
next
  show "set (fst (pull s q k now)) \<subseteq> set (stored_of s q)" by (rule pull_returns_stored)
next
  assume "sqs_publish client stringify st q p2 options now = (Inr sqs_message, st')"
  from sqs_publish_meta [OF this]
  show "attributes sqs_message = chain options opt_attributes"
    and "correlationId sqs_message = chain options opt_correlationId" by simp_all
next
  assume a: "entries = (case chain options opt_attributes of None \<Rightarrow> [] | Some a \<Rightarrow> a) \<and>
       distinct (map fst entries) \<and> ''correlationId'' \<notin> fst ` set entries \<and>
       MessageAttributes raw = Some (toMessageAttributes options)"
  then have e: "entries = (case chain options opt_attributes of None \<Rightarrow> [] | Some a \<Rightarrow> a)"
    and d0: "distinct (map fst entries)"
    and n0: "''correlationId'' \<notin> fst ` set entries"
    and r: "MessageAttributes raw = Some (toMessageAttributes options)"
    by blast+
  have d: "distinct (map fst (case chain options opt_attributes of None \<Rightarrow> [] | Some a \<Rightarrow> a))"
    using d0 unfolding e .
  have n: "''correlationId''
              \<notin> fst ` set (case chain options opt_attributes of None \<Rightarrow> [] | Some a \<Rightarrow> a)"
    using n0 unfolding e .
  from sqs_transport(1) [OF d n r]
  show "attributes (sqs_to_message parse to_number now raw)
          = Some (filter (\<lambda>(key, v). key \<noteq> ''__proto__'' \<and> v \<noteq> []) entries)" unfolding e .
  from sqs_transport(2) [OF d n r]
  show "correlationId (sqs_to_message parse to_number now raw)
          = (if truthy_str (chain options opt_correlationId)
             then chain options opt_correlationId else None)" .
next
  assume "rabbit_publish env stringify3 rst q p3 options generated now = (Inr rabbit_message, rst')"
  from rabbit_publish_meta [OF this]
  show "attributes rabbit_message = chain options opt_attributes"
    and "correlationId rabbit_message
          = Some (if truthy_str (chain options opt_correlationId)
                  then the (chain options opt_correlationId) else generated)" by simp_all
next
  assume "properties msg = publishOptions options generated \<and>
       distinct (map fst (case chain options opt_attributes of None \<Rightarrow> [] | Some a \<Rightarrow> a))"
  then have a: "properties msg = publishOptions options generated"
    and d: "distinct (map fst (case chain options opt_attributes of None \<Rightarrow> [] | Some a \<Rightarrow> a))"
    by blast+
  show "attributes (rabbit_to_message parse3 tag_text now fallback msg)
          = Some (filter (\<lambda>(key, v). key \<noteq> ''correlationId'' \<and> key \<noteq> ''__proto__'')
                    (case chain options opt_attributes of None \<Rightarrow> [] | Some a \<Rightarrow> a))"
    by (rule rabbit_transport(1) [OF a d])
  show "correlationId (rabbit_to_message parse3 tag_text now fallback msg)
          = Some (if truthy_str (chain options opt_correlationId)
                  then the (chain options opt_correlationId) else generated)"
    by (rule rabbit_transport(2) [OF a d])
qed

text \<open>
  The witness: a publish with a correlation identifier and one attribute. The in-memory
  driver returns and then pulls a message with both; the cloud and the broker driver
  read both back from what they sent.
\<close>

theorem metadata_round_trip_witness:
  "attributes (fst (publish (new_driver :: nat driver) ''q'' 7 (Some meta1) ''id1'' ''rc1'' 0))
     = Some [(''k'', ''v'')]
   \<and> correlationId (fst (publish (new_driver :: nat driver) ''q'' 7 (Some meta1) ''id1'' ''rc1'' 0))
     = Some ''c1''
   \<and> fst (pull (snd (publish (new_driver :: nat driver) ''q'' 7 (Some meta1) ''id1'' ''rc1'' 0))
           ''q'' None 0)
     = [fst (publish (new_driver :: nat driver) ''q'' 7 (Some meta1) ''id1'' ''rc1'' 0)]
   \<and> attributes (sqs_to_message (\<lambda>b. None :: nat option) (\<lambda>t. 0) 0 sqs_delivery)
     = Some [(''k'', ''v'')]
   \<and> correlationId (sqs_to_message (\<lambda>b. None :: nat option) (\<lambda>t. 0) 0 sqs_delivery) = Some ''c1''
   \<and> attributes (rabbit_to_message (\<lambda>b. None :: nat option) (\<lambda>n. ''42'') 0 ''fb'' rabbit_delivery)
     = Some [(''k'', ''v'')]
   \<and> correlationId (rabbit_to_message (\<lambda>b. None :: nat option) (\<lambda>n. ''42'') 0 ''fb'' rabbit_delivery)
     = Some ''c1''"
proof -
  let ?pub = "publish (new_driver :: nat driver) ''q'' 7 (Some meta1) ''id1'' ''rc1'' 0"
  have pub: "?pub = (fst ?pub, snd ?pub)" by simp
  have at: "chain (Some meta1) opt_attributes = Some [(''k'', ''v'')]"
    by (simp add: chain_def meta1_def)
  have co: "chain (Some meta1) opt_correlationId = Some ''c1''"
    by (simp add: chain_def meta1_def)
  have es: "[(''k'', ''v'')]
              = (case chain (Some meta1) opt_attributes of None \<Rightarrow> [] | Some a \<Rightarrow> a)"
    by (simp add: at)
  have raw: "MessageAttributes sqs_delivery = Some (toMessageAttributes (Some meta1))"
    by (simp add: sqs_delivery_def)
  have props: "properties rabbit_delivery = publishOptions (Some meta1) ''1700000000000-k3j2h1''"
    by (simp add: rabbit_delivery_def)
  note T = metadata_round_trip [where s = "new_driver :: nat driver" and q = "''q''" and p = 7
      and options = "Some meta1" and ?uuid1.0 = "''id1''" and ?uuid2.0 = "''rc1''" and ?t0.0 = 0
      and message = "fst ?pub" and ?s1.0 = "snd ?pub"
      and entries = "[(''k'', ''v'')]" and raw = sqs_delivery
      and parse = "\<lambda>b. None :: nat option" and to_number = "\<lambda>t. 0" and now = 0
      and msg = rabbit_delivery and generated = "''1700000000000-k3j2h1''"
      and ?parse3.0 = "\<lambda>b. None :: nat option" and tag_text = "\<lambda>n. ''42''"
      and fallback = "''fb''"]
  note A = T [THEN conjunct1, THEN mp, OF pub]
  note D = T [THEN conjunct2, THEN conjunct2, THEN conjunct2, THEN conjunct1, THEN mp]
  have pre3: "properties rabbit_delivery = publishOptions (Some meta1) ''1700000000000-k3j2h1''
      \<and> distinct (map fst (case chain (Some meta1) opt_attributes of None \<Rightarrow> [] | Some a \<Rightarrow> a))"
    by (simp add: at props)
  note F = T [THEN conjunct2, THEN conjunct2, THEN conjunct2, THEN conjunct2, THEN conjunct2,
      THEN mp, OF pre3]
  from A have a: "attributes (fst ?pub) = Some [(''k'', ''v'')]"
    and b: "correlationId (fst ?pub) = Some ''c1''"
    unfolding at co by simp_all
  have c: "fst (pull (snd ?pub) ''q'' None 0) = [fst ?pub]" by code_simp
  have pre: "[(''k'', ''v'')] = (case chain (Some meta1) opt_attributes of None \<Rightarrow> [] | Some a \<Rightarrow> a)
      \<and> distinct (map fst [(''k'', ''v'')])
      \<and> ''correlationId'' \<notin> fst ` set [(''k'', ''v'')]
      \<and> MessageAttributes sqs_delivery = Some (toMessageAttributes (Some meta1))"
    by (simp add: at raw)
  from D [OF pre]
  have d: "attributes (sqs_to_message (\<lambda>b. None :: nat option) (\<lambda>t. 0) 0 sqs_delivery)
     = Some (filter (\<lambda>(key, v). key \<noteq> ''__proto__'' \<and> v \<noteq> []) [(''k'', ''v'')])"
    and e: "correlationId (sqs_to_message (\<lambda>b. None :: nat option) (\<lambda>t. 0) 0 sqs_delivery)
     = (if truthy_str (chain (Some meta1) opt_correlationId)
        then chain (Some meta1) opt_correlationId else None)"
    by simp_all
  from F
  have f: "attributes (rabbit_to_message (\<lambda>b. None :: nat option) (\<lambda>n. ''42'') 0 ''fb'' rabbit_delivery)
     = Some (filter (\<lambda>(key, v). key \<noteq> ''correlationId'' \<and> key \<noteq> ''__proto__'')
               (case chain (Some meta1) opt_attributes of None \<Rightarrow> [] | Some a \<Rightarrow> a))"
    and g: "correlationId (rabbit_to_message (\<lambda>b. None :: nat option) (\<lambda>n. ''42'') 0 ''fb'' rabbit_delivery)
     = Some (if truthy_str (chain (Some meta1) opt_correlationId)
             then the (chain (Some meta1) opt_correlationId) else ''1700000000000-k3j2h1'')"
    by simp_all
  from a b c d e f g show ?thesis
    by (simp add: at co truthy_str_def)
qed

text \<open>
  The claim as stated fails on the broker driver: a publish without options (no
  correlation identifier supplied) returns a message that carries one, the generated
  message identifier.
\<close>

theorem rabbit_correlation_counterexample:
  "(case fst (rabbit_publish working_broker (\<lambda>p. ''7'') new_rabbit ''q'' (7 :: nat) None
               ''1700000000000-k3j2h1'' 0) of
      Inl err \<Rightarrow> False
    | Inr message \<Rightarrow> correlationId message = Some ''1700000000000-k3j2h1'')"
  by code_simp

end
